theory Spec2Isabelle
  imports Complex_Main "HOL-Library.AList" "HOL-Library.Multiset"
begin

section \<open>Python values used by the image manager\<close>

text \<open>
  Exceptions are values. \<open>ValueError\<close> and \<open>KeyError\<close> are the two the repository's
  own code raises or provokes; \<open>Exn\<close> stands for any other exception coming out of a
  library call (file decoding, the file-sharing client), with its message.
\<close>

datatype exn = ValueError string | KeyError string | Exn string

text \<open>\<open>str(e)\<close>: the message (for a KeyError, the key as it is printed).\<close>

fun exn_str :: "exn \<Rightarrow> string" where
  "exn_str (ValueError m) = m"
| "exn_str (KeyError k) = k"
| "exn_str (Exn m) = m"

subsection \<open>String operations\<close>

text \<open>\<open>s.startswith(p)\<close> and \<open>s.endswith(p)\<close>.\<close>

definition startswith :: "string \<Rightarrow> string \<Rightarrow> bool" where
  "startswith s p = (take (length p) s = p)"

definition endswith :: "string \<Rightarrow> string \<Rightarrow> bool" where
  "endswith s p = (length p \<le> length s \<and> drop (length s - length p) s = p)"

text \<open>\<open>s.split(c)\<close> for a one-character separator: always at least one part.\<close>

fun split_on :: "char \<Rightarrow> string \<Rightarrow> string list" where
  "split_on c [] = [[]]"
| "split_on c (x # xs) =
     (if x = c then [] # split_on c xs
      else (case split_on c xs of
              [] \<Rightarrow> [[x]]
            | p # ps \<Rightarrow> (x # p) # ps))"

text \<open>\<open>sep.join(parts)\<close>.\<close>

fun join :: "string \<Rightarrow> string list \<Rightarrow> string" where
  "join sep [] = []"
| "join sep [p] = p"
| "join sep (p # q # ps) = p @ sep @ join sep (q # ps)"

section \<open>gui.py: parse\_smb\_url\<close>

definition parse_smb_url :: "string \<Rightarrow> exn + (string \<times> string \<times> string)" where
  "parse_smb_url url =
     (if \<not> startswith url ''smb://'' then Inl (ValueError ''Not an SMB URL'')
      else
        let trimmed = drop 6 url;
            parts = split_on CHR ''/'' trimmed
        in if length parts < 2
           then Inl (ValueError ''SMB URL must contain at least server and share'')
           else
             let server = parts ! 0;
                 share = parts ! 1;
                 rel_path = (if length parts > 2 \<and> parts ! 2 \<noteq> ''''
                             then ''/'' @ join ''/'' (drop 2 parts)
                             else ''/'')
             in Inr (server, share, rel_path))"

text \<open>
  A URL of the form \<open>smb://server/share/p1/.../pn\<close>, built from its components; the
  expected relative path \<open>/p1/.../pn\<close> is \<open>path_of ps\<close>.
\<close>

definition path_of :: "string list \<Rightarrow> string" where
  "path_of ps = concat (map (\<lambda>p. ''/'' @ p) ps)"

definition smb_url :: "string \<Rightarrow> string \<Rightarrow> string list \<Rightarrow> string" where
  "smb_url server share ps = ''smb://'' @ server @ ''/'' @ share @ path_of ps"

definition slash_free :: "string \<Rightarrow> bool" where
  "slash_free s = (CHR ''/'' \<notin> set s)"

subsection \<open>Integers as text, dictionaries, slices, sorting\<close>

text \<open>\<open>str(n)\<close> for an integer.\<close>

fun str_nat :: "nat \<Rightarrow> string" where
  "str_nat n =
     (if n < 10 then [char_of (48 + n)]
      else str_nat (n div 10) @ [char_of (48 + n mod 10)])"

definition str_int :: "int \<Rightarrow> string" where
  "str_int i = (if i < 0 then CHR ''-'' # str_nat (nat (- i)) else str_nat (nat i))"

text \<open>
  A Python dict keeps its keys in insertion order and holds each key once: it is an
  association list whose keys are distinct. \<open>d[k] = v\<close> is \<open>AList.update k v d\<close>
  (the value is replaced in place when the key is there, the pair is appended when not).
\<close>

definition is_dict :: "('k \<times> 'v) list \<Rightarrow> bool" where
  "is_dict d = distinct (map fst d)"

text \<open>\<open>xs[:k]\<close>: a negative \<open>k\<close> counts from the end.\<close>

definition slice_to :: "'a list \<Rightarrow> int \<Rightarrow> 'a list" where
  "slice_to xs k =
     (if 0 \<le> k then take (nat k) xs else take (length xs - nat (- k)) xs)"

text \<open>
  \<open>list.sort\<close> and \<open>sorted\<close> order by \<open><\<close> alone (\<open>lt\<close> here, on the keys) and are
  stable. The model is the insertion sort: each element in turn moves left, in the
  prefix already sorted, past every element that it is less than. \<open>sift\<close> does one such
  move; it takes the prefix from its right end. Where \<open><\<close> is a total order of the keys
  every stable sort returns the same list; where it is not (a \<open>nan\<close> among floats) the
  result depends on the method, and this one, like Python's, leaves a list as it is when
  no element is less than the one before it.
\<close>

fun sift :: "('k \<Rightarrow> 'k \<Rightarrow> bool) \<Rightarrow> ('a \<Rightarrow> 'k) \<Rightarrow> 'a \<Rightarrow> 'a list \<Rightarrow> 'a list" where
  "sift lt key x [] = [x]"
| "sift lt key x (y # ys) =
     (if lt (key x) (key y) then y # sift lt key x ys else x # y # ys)"

definition list_sort :: "('k \<Rightarrow> 'k \<Rightarrow> bool) \<Rightarrow> ('a \<Rightarrow> 'k) \<Rightarrow> 'a list \<Rightarrow> 'a list" where
  "list_sort lt key xs = rev (foldl (\<lambda>sorted_prefix x. sift lt key x sorted_prefix) [] xs)"

text \<open>
  \<open>sorted(xs, key=key, reverse=True)\<close>: the list is reversed, sorted in ascending order
  of the key, and reversed again.
\<close>

definition sorted_reverse :: "('k \<Rightarrow> 'k \<Rightarrow> bool) \<Rightarrow> ('a \<Rightarrow> 'k) \<Rightarrow> 'a list \<Rightarrow> 'a list" where
  "sorted_reverse lt key xs = rev (list_sort lt key (rev xs))"

text \<open>\<open>range(n)\<close>.\<close>

definition py_range :: "int \<Rightarrow> int list" where
  "py_range n = [0 .. n - 1]"

section \<open>search.py\<close>

text \<open>
  An embedding is a numpy array of one row, here the list of its entries, which are
  numbers; sums, products and square roots of them are exact. A quotient is a numpy
  float: \<open>x / 0\<close> is \<open>inf\<close> or \<open>-inf\<close> by the sign of \<open>x\<close>, and \<open>0 / 0\<close> is \<open>nan\<close>.
  Every comparison with \<open>nan\<close> is false.
\<close>

datatype npfloat = Fin real | PosInf | NegInf | NaN

definition np_divide :: "real \<Rightarrow> real \<Rightarrow> npfloat" where
  "np_divide x y =
     (if y \<noteq> 0 then Fin (x / y)
      else if x = 0 then NaN
      else if 0 < x then PosInf
      else NegInf)"

fun np_less :: "npfloat \<Rightarrow> npfloat \<Rightarrow> bool" where
  "np_less NaN y = False"
| "np_less x NaN = False"
| "np_less (Fin x) (Fin y) = (x < y)"
| "np_less (Fin x) PosInf = True"
| "np_less (Fin x) NegInf = False"
| "np_less PosInf y = False"
| "np_less NegInf NegInf = False"
| "np_less NegInf y = True"


text \<open>
  cosine\_similarity: the product \<open>np.dot(a, b.T)\<close> of a row and a column raises when
  their lengths differ, and \<open>np.linalg.norm\<close> is the Euclidean norm.
\<close>

definition dot :: "real list \<Rightarrow> real list \<Rightarrow> real" where
  "dot a b = sum_list (map (\<lambda>(x, y). x * y) (zip a b))"

definition linalg_norm :: "real list \<Rightarrow> real" where
  "linalg_norm a = sqrt (sum_list (map (\<lambda>x. x * x) a))"

definition cosine_similarity :: "real list \<Rightarrow> real list \<Rightarrow> exn + npfloat" where
  "cosine_similarity a b =
     (if length a \<noteq> length b then Inl (ValueError ''shapes not aligned'')
      else Inr (np_divide (dot a b) (linalg_norm a * linalg_norm b)))"

text \<open>search\_similar\_images. The loop fills the dict \<open>similarities\<close>.\<close>

fun similarities_loop ::
  "real list \<Rightarrow> (string \<times> real list) list \<Rightarrow> (string \<times> npfloat) list
     \<Rightarrow> exn + (string \<times> npfloat) list" where
  "similarities_loop text_embedding [] similarities = Inr similarities"
| "similarities_loop text_embedding ((filename, img_embedding) # rest) similarities =
     (case cosine_similarity text_embedding img_embedding of
        Inl e \<Rightarrow> Inl e
      | Inr sim \<Rightarrow>
          similarities_loop text_embedding rest (AList.update filename sim similarities))"

definition search_similar_images ::
  "real list \<Rightarrow> (string \<times> real list) list \<Rightarrow> int \<Rightarrow> exn + (string \<times> npfloat) list" where
  "search_similar_images text_embedding image_embeddings top_k =
     (case similarities_loop text_embedding image_embeddings [] of
        Inl e \<Rightarrow> Inl e
      | Inr similarities \<Rightarrow>
          let sorted_images = sorted_reverse np_less snd similarities
          in Inr (slice_to sorted_images top_k))"





section \<open>clustering.py\<close>

text \<open>
  \<open>np.vstack\<close> of rows: it raises on an empty list and on rows of different lengths.
\<close>

definition np_vstack :: "real list list \<Rightarrow> exn + real list list" where
  "np_vstack arrays =
     (if arrays = [] then Inl (ValueError ''need at least one array to concatenate'')
      else if list_all (\<lambda>a. length a = length (hd arrays)) arrays then Inr arrays
      else Inl (ValueError
             ''all the input array dimensions except for the concatenation axis must match exactly''))"

text \<open>
  \<open>KMeans(n_clusters=n, random_state=0).fit(X).labels_\<close> of scikit-learn. Before it
  computes anything, \<open>fit\<close> checks its parameter and its data, and raises a ValueError
  when \<open>n_clusters\<close> is below 1, when the data has no row or no column, and when there
  are fewer rows than clusters. The computation is the parameter \<open>kmeans_labels\<close>: the
  labels the algorithm gives to the rows.
\<close>

definition KMeans_fit ::
  "(int \<Rightarrow> real list list \<Rightarrow> int list) \<Rightarrow> int \<Rightarrow> real list list \<Rightarrow> exn + int list" where
  "KMeans_fit kmeans_labels n_clusters X =
     (if n_clusters < 1
      then Inl (ValueError
             (''The '' @ [CHR 0x27] @ ''n_clusters'' @ [CHR 0x27] @
              '' parameter of KMeans must be an int in the range [1, inf). Got '' @
              str_int n_clusters @ '' instead.''))
      else if X = [] then Inl (ValueError ''Found array with 0 sample(s)'')
      else if hd X = [] then Inl (ValueError ''Found array with 0 feature(s)'')
      else if int (length X) < n_clusters
      then Inl (ValueError
             (''n_samples='' @ str_int (int (length X)) @ '' should be >= n_clusters='' @
              str_int n_clusters @ ''.''))
      else Inr (kmeans_labels n_clusters X))"

text \<open>\<open>clusters[label].append(filename)\<close>: a KeyError when the label is no key.\<close>

definition clusters_append ::
  "(int \<times> string list) list \<Rightarrow> int \<Rightarrow> string \<Rightarrow> exn + (int \<times> string list) list" where
  "clusters_append clusters label filename =
     (case map_of clusters label of
        None \<Rightarrow> Inl (KeyError (str_int label))
      | Some members \<Rightarrow> Inr (AList.update label (members @ [filename]) clusters))"

fun assign_loop ::
  "(string \<times> int) list \<Rightarrow> (int \<times> string list) list \<Rightarrow> exn + (int \<times> string list) list" where
  "assign_loop [] clusters = Inr clusters"
| "assign_loop ((filename, label) # rest) clusters =
     (case clusters_append clusters label filename of
        Inl e \<Rightarrow> Inl e
      | Inr clusters' \<Rightarrow> assign_loop rest clusters')"

text \<open>
  cluster\_images. The rows \<open>image_embeddings[fn]\<close> for the keys in order are the values
  of the dict in order.
\<close>

definition cluster_images ::
  "(int \<Rightarrow> real list list \<Rightarrow> int list) \<Rightarrow> (string \<times> real list) list \<Rightarrow> int
     \<Rightarrow> exn + (int \<times> string list) list" where
  "cluster_images kmeans_labels image_embeddings num_clusters =
     (let filenames = map fst image_embeddings
      in case np_vstack (map snd image_embeddings) of
           Inl e \<Rightarrow> Inl e
         | Inr embeddings \<Rightarrow>
             (case KMeans_fit kmeans_labels num_clusters embeddings of
                Inl e \<Rightarrow> Inl e
              | Inr labels \<Rightarrow>
                  let clusters = map (\<lambda>i. (i, [])) (py_range num_clusters)
                  in assign_loop (zip filenames labels) clusters))"

text \<open>
  What scikit-learn promises of the labels of a fit: one label per row, each in
  \<open>range(n)\<close>. And rows that stack and can be fitted: all of one length, which is not 0.
\<close>

definition valid_labels :: "int \<Rightarrow> nat \<Rightarrow> int list \<Rightarrow> bool" where
  "valid_labels n rows labels =
     (length labels = rows \<and> list_all (\<lambda>l. 0 \<le> l \<and> l < n) labels)"

definition rows_of_width :: "nat \<Rightarrow> (string \<times> real list) list \<Rightarrow> bool" where
  "rows_of_width d image_embeddings =
     (0 < d \<and> list_all (\<lambda>(filename, e). length e = d) image_embeddings)"

text \<open>
  Two stand-ins for the algorithm: every row gets the label 0; a row gets the label 1
  when its first entry is positive and the label 0 when not.
\<close>

definition one_cluster :: "int \<Rightarrow> real list list \<Rightarrow> int list" where
  "one_cluster n X = map (\<lambda>row. 0) X"

definition by_first_entry :: "int \<Rightarrow> real list list \<Rightarrow> int list" where
  "by_first_entry n X = map (\<lambda>row. case row of [] \<Rightarrow> 0 | x # rest \<Rightarrow> if 0 < x then 1 else 0) X"

section \<open>gui.py: the environment\<close>

text \<open>\<open>s.lower()\<close> on ASCII letters, and \<open>os.path.join(a, b)\<close> (POSIX).\<close>

definition lower_char :: "char \<Rightarrow> char" where
  "lower_char c =
     (case map_of (zip ''ABCDEFGHIJKLMNOPQRSTUVWXYZ'' ''abcdefghijklmnopqrstuvwxyz'') c of
        None \<Rightarrow> c
      | Some l \<Rightarrow> l)"

definition lower :: "string \<Rightarrow> string" where
  "lower s = map lower_char s"

definition path_join :: "string \<Rightarrow> string \<Rightarrow> string" where
  "path_join a b =
     (if startswith b ''/'' then b
      else if a = [] \<or> endswith a ''/'' then a @ b
      else a @ ''/'' @ b)"

text \<open>\<open>filename.lower().endswith(('.png', '.jpg', '.jpeg'))\<close>.\<close>

definition has_image_extension :: "string \<Rightarrow> bool" where
  "has_image_extension filename =
     (endswith (lower filename) ''.png'' \<or> endswith (lower filename) ''.jpg'' \<or>
      endswith (lower filename) ''.jpeg'')"

text \<open>An entry of a remote directory listing (\<open>entry.filename\<close>, \<open>entry.isDirectory\<close>).\<close>

datatype entry = SharedFile (entry_filename: string) (entry_isDirectory: bool)

text \<open>
  What the program does to the outside world, in order: console output, the calls to the
  file-sharing client, the local directory walk and every attempt to open a file.
\<close>

datatype event =
    Print string
  | Connect string
  | Close
  | ListPath string string
  | RetrieveFile string string
  | ImageOpen string
  | OsWalk string

text \<open>
  The library calls of gui.py, as functions of a fixed outside world. Each of them can
  raise, whether the source wraps it in \<open>try\<close> or not, except \<open>os.path.isdir\<close>, which
  answers \<open>False\<close> where it cannot look, and \<open>os.walk\<close>, which skips what it cannot list.
  \<^item> \<open>image_open p\<close>: \<open>Image.open(p).convert("RGB")\<close> on a local path;
  \<^item> \<open>isdir p\<close>: \<open>os.path.isdir(p)\<close>; \<open>os_walk p\<close>: the triples \<open>os.walk(p)\<close> yields;
  \<^item> \<open>smb_connection server\<close>: \<open>SMBConnection(...)\<close> with the settings of the environment
    and the server's name, which builds the client object or raises (\<open>Some\<close> the exception);
  \<^item> \<open>smb_connect server\<close>: \<open>conn.connect(server, 445)\<close>, which returns whether the
    server accepted the session, or raises (a server that cannot be reached, a time-out);
  \<^item> \<open>smb_listPath server share path\<close>: \<open>conn.listPath(share, path)\<close>;
  \<^item> \<open>smb_retrieveFile server share path\<close>: \<open>conn.retrieveFile\<close> into a buffer, then
    \<open>Image.open(buffer).convert("RGB")\<close>;
  \<^item> \<open>smb_close server\<close>: \<open>conn.close()\<close>;
  \<^item> \<open>encode_image\<close>, \<open>encode_text\<close>: the embedding model on an image and on a text;
  \<^item> \<open>png_base64 img\<close>: the base64 text of the image saved as PNG.
\<close>

record ('img, 'emb) env =
  image_open :: "string \<Rightarrow> exn + 'img"
  isdir :: "string \<Rightarrow> bool"
  os_walk :: "string \<Rightarrow> (string \<times> string list \<times> string list) list"
  smb_connection :: "string \<Rightarrow> exn option"
  smb_connect :: "string \<Rightarrow> exn + bool"
  smb_listPath :: "string \<Rightarrow> string \<Rightarrow> string \<Rightarrow> exn + entry list"
  smb_retrieveFile :: "string \<Rightarrow> string \<Rightarrow> string \<Rightarrow> exn + 'img"
  smb_close :: "string \<Rightarrow> exn option"
  encode_image :: "'img \<Rightarrow> exn + 'emb"
  encode_text :: "string \<Rightarrow> exn + 'emb"
  png_base64 :: "'img \<Rightarrow> exn + string"

section \<open>image\_embeddings.py\<close>

text \<open>
  get\_image\_embeddings: the loop stops at the first image on which the model raises.
\<close>

fun embeddings_loop ::
  "('img \<Rightarrow> exn + 'emb) \<Rightarrow> (string \<times> 'img) list \<Rightarrow> (string \<times> 'emb) list
     \<Rightarrow> exn + (string \<times> 'emb) list" where
  "embeddings_loop enc [] embeddings = Inr embeddings"
| "embeddings_loop enc ((filename, img) # rest) embeddings =
     (case enc img of
        Inl e \<Rightarrow> Inl e
      | Inr embedding \<Rightarrow> embeddings_loop enc rest (AList.update filename embedding embeddings))"

definition get_image_embeddings ::
  "('img, 'emb) env \<Rightarrow> (string \<times> 'img) list \<Rightarrow> exn + (string \<times> 'emb) list" where
  "get_image_embeddings world images_dict = embeddings_loop (encode_image world) images_dict []"

definition get_text_embedding :: "('img, 'emb) env \<Rightarrow> string \<Rightarrow> exn + 'emb" where
  "get_text_embedding world prompt = encode_text world prompt"

section \<open>gui.py: smb\_walk\<close>

text \<open>
  smb\_walk is a generator. Its run is the list of its steps: a listing that succeeded
  yields \<open>(top, dirs, files)\<close> and goes on into the subdirectories; a listing that
  raised is printed and ends that branch. The recursion follows the remote tree, which
  the program does not bound: the fuel is the depth allowed, and \<open>None\<close> is a walk that
  needs more.
\<close>

datatype walk_step =
    Listing string "string list" "string list"
  | ListError string exn

fun smb_walk ::
  "nat \<Rightarrow> ('img, 'emb) env \<Rightarrow> string \<Rightarrow> string \<Rightarrow> string \<Rightarrow> walk_step list option"
and smb_walk_dirs ::
  "nat \<Rightarrow> ('img, 'emb) env \<Rightarrow> string \<Rightarrow> string \<Rightarrow> string \<Rightarrow> string list \<Rightarrow> walk_step list option"
where
  "smb_walk 0 world server share top_path = None"
| "smb_walk (Suc fuel) world server share top_path =
     (case smb_listPath world server share top_path of
        Inl e \<Rightarrow> Some [ListError top_path e]
      | Inr entries \<Rightarrow>
          let shown = filter (\<lambda>en. entry_filename en \<noteq> ''.'' \<and> entry_filename en \<noteq> ''..'') entries;
              dirs = map entry_filename (filter entry_isDirectory shown);
              files = map entry_filename (filter (\<lambda>en. \<not> entry_isDirectory en) shown)
          in (case smb_walk_dirs fuel world server share top_path dirs of
                None \<Rightarrow> None
              | Some below \<Rightarrow> Some (Listing top_path dirs files # below)))"
| "smb_walk_dirs fuel world server share top_path [] = Some []"
| "smb_walk_dirs fuel world server share top_path (d # ds) =
     (case smb_walk fuel world server share (path_join top_path d) of
        None \<Rightarrow> None
      | Some first \<Rightarrow>
          (case smb_walk_dirs fuel world server share top_path ds of
             None \<Rightarrow> None
           | Some others \<Rightarrow> Some (first @ others)))"

section \<open>gui.py: load\_images\_combined\<close>

text \<open>
  The three loading loops share their body: open the file at a path; on success
  \<open>images[path] = img\<close>; on an exception print the loop's message, the path and the
  exception, and go on. \<open>load_paths opn attempt message\<close> runs it over a list of paths;
  \<open>opn\<close> opens a path and \<open>attempt\<close> is the event of trying.
\<close>

fun load_paths ::
  "(string \<Rightarrow> exn + 'img) \<Rightarrow> (string \<Rightarrow> event) \<Rightarrow> string \<Rightarrow> string list \<Rightarrow> (string \<times> 'img) list
     \<Rightarrow> event list \<times> (string \<times> 'img) list" where
  "load_paths opn attempt message [] images = ([], images)"
| "load_paths opn attempt message (path # rest) images =
     (case opn path of
        Inr img \<Rightarrow>
          (let (trace, images') = load_paths opn attempt message rest (AList.update path img images)
           in (attempt path # trace, images'))
      | Inl e \<Rightarrow>
          (let (trace, images') = load_paths opn attempt message rest images
           in (attempt path # Print (message @ '' '' @ path @ '' '' @ exn_str e) # trace, images')))"

text \<open>
  The paths one directory of a walk contributes: \<open>os.path.join(root, filename)\<close> for the
  filenames that pass the extension test, in order.
\<close>

definition image_paths :: "string \<Rightarrow> string list \<Rightarrow> string list" where
  "image_paths root_dir files_in_dir = map (path_join root_dir) (filter has_image_extension files_in_dir)"

text \<open>Lines 138 to 145: the local walk.\<close>

fun load_local_walk ::
  "('img, 'emb) env \<Rightarrow> (string \<times> string list \<times> string list) list \<Rightarrow> (string \<times> 'img) list
     \<Rightarrow> event list \<times> (string \<times> 'img) list" where
  "load_local_walk world [] images = ([], images)"
| "load_local_walk world ((root_dir, dirs, files_in_dir) # rest) images =
     (let (trace1, images1) =
            load_paths (image_open world) ImageOpen ''Error loading local file:''
              (image_paths root_dir files_in_dir) images;
          (trace2, images2) = load_local_walk world rest images1
      in (trace1 @ trace2, images2))"

text \<open>
  Lines 122 to 134: the loop over smb\_walk. Each step starts with the generator's
  \<open>listPath\<close> call; the files of a listing are retrieved before the generator goes on.
\<close>

fun load_smb_walk ::
  "('img, 'emb) env \<Rightarrow> string \<Rightarrow> string \<Rightarrow> walk_step list \<Rightarrow> (string \<times> 'img) list
     \<Rightarrow> event list \<times> (string \<times> 'img) list" where
  "load_smb_walk world server share [] images = ([], images)"
| "load_smb_walk world server share (ListError top_path e # rest) images =
     (let (trace2, images2) = load_smb_walk world server share rest images
      in (ListPath share top_path #
          Print (''Error listing directory '' @ top_path @ '': '' @ exn_str e) # trace2, images2))"
| "load_smb_walk world server share (Listing root_dir dirs files_in_dir # rest) images =
     (let (trace1, images1) =
            load_paths (smb_retrieveFile world server share) (RetrieveFile share)
              ''Error loading SMB file:'' (image_paths root_dir files_in_dir) images;
          (trace2, images2) = load_smb_walk world server share rest images1
      in (ListPath share root_dir # trace1 @ trace2, images2))"

text \<open>The session state: \<open>state["images"]\<close> and \<open>state["embeddings"]\<close>.\<close>

record ('img, 'emb) state =
  st_images :: "(string \<times> 'img) list"
  st_embeddings :: "(string \<times> 'emb) list"

text \<open>
  How a call of load\_images\_combined ends: with the exception that left it, or with the
  status message and the state (\<open>None\<close> or a state) it returned. The model pairs this
  with the trace of the events up to there.
\<close>

type_synonym ('img, 'emb) outcome =
  "event list \<times> (exn + string \<times> ('img, 'emb) state option)"

text \<open>Lines 151 to 156: the end of load\_images\_combined, once \<open>images\<close> is filled.\<close>

definition finish_load ::
  "('img, 'emb) env \<Rightarrow> event list \<Rightarrow> (string \<times> 'img) list \<Rightarrow> ('img, 'emb) outcome" where
  "finish_load world trace images =
     (if images = [] then (trace, Inr (''No images loaded'', None))
      else
        (case get_image_embeddings world images of
           Inl e \<Rightarrow> (trace, Inl e)
         | Inr embeddings \<Rightarrow>
             (trace, Inr (''Images loaded successfully'',
                          Some \<lparr>st_images = images, st_embeddings = embeddings\<rparr>))))"

text \<open>
  load\_images\_combined. An upload that is \<open>None\<close> is falsy like the empty list, and is
  the empty list here. The calls outside any \<open>try\<close> (building the client object,
  \<open>connect\<close>, \<open>close\<close>, get\_image\_embeddings) end the load where they raise. The
  result is \<open>None\<close> when the remote walk needs more fuel.
\<close>

definition load_images_combined ::
  "('img, 'emb) env \<Rightarrow> nat \<Rightarrow> string list \<Rightarrow> string \<Rightarrow> ('img, 'emb) outcome option" where
  "load_images_combined world fuel files folder_path =
     (if files \<noteq> [] then
        (let (trace, images) = load_paths (image_open world) ImageOpen ''Error loading file:'' files []
         in Some (finish_load world trace images))
      else if folder_path \<noteq> [] then
        (if startswith folder_path ''smb://'' then
           (case parse_smb_url folder_path of
              Inl e \<Rightarrow> Some ([], Inr (''Invalid SMB URL: '' @ exn_str e, None))
            | Inr (server, share, rel_path) \<Rightarrow>
                (case smb_connection world server of
                   Some e \<Rightarrow> Some ([], Inl e)
                 | None \<Rightarrow>
                     (case smb_connect world server of
                        Inl e \<Rightarrow> Some ([Connect server], Inl e)
                      | Inr accepted \<Rightarrow>
                          if \<not> accepted
                          then Some ([Connect server], Inr (''Connection failed.'', None))
                          else
                            (case smb_walk fuel world server share rel_path of
                               None \<Rightarrow> None
                             | Some steps \<Rightarrow>
                                 (let (trace, images) = load_smb_walk world server share steps []
                                  in (case smb_close world server of
                                        Some e \<Rightarrow> Some (Connect server # trace @ [Close], Inl e)
                                      | None \<Rightarrow>
                                          Some (finish_load world
                                                  (Connect server # trace @ [Close]) images)))))))
         else if isdir world folder_path then
           (let (trace, images) = load_local_walk world (os_walk world folder_path) []
            in Some (finish_load world (OsWalk folder_path # trace) images))
         else Some ([], Inr (''Invalid folder path provided.'', None)))
      else Some ([], Inr (''No images provided'', None)))"

section \<open>gui.py: search\_images and cluster\_images\_gui\<close>

text \<open>\<open>d[k]\<close> for each key of a list, raising KeyError at the first key that is missing.\<close>

fun lookup_each :: "(string \<times> 'v) list \<Rightarrow> string list \<Rightarrow> exn + 'v list" where
  "lookup_each d [] = Inr []"
| "lookup_each d (k # ks) =
     (case map_of d k of
        None \<Rightarrow> Inl (KeyError k)
      | Some v \<Rightarrow> (case lookup_each d ks of Inl e \<Rightarrow> Inl e | Inr vs \<Rightarrow> Inr (v # vs)))"

definition search_images ::
  "('img, real list) env \<Rightarrow> string \<Rightarrow> ('img, real list) state option \<Rightarrow> exn + 'img list" where
  "search_images world prompt state =
     (case state of
        None \<Rightarrow> Inr []
      | Some st \<Rightarrow>
          (case get_text_embedding world prompt of
             Inl e \<Rightarrow> Inl e
           | Inr text_emb \<Rightarrow>
               (case search_similar_images text_emb (st_embeddings st) 5 of
                  Inl e \<Rightarrow> Inl e
                | Inr results \<Rightarrow> lookup_each (st_images st) (map fst results))))"

definition pil_to_base64 :: "('img, 'emb) env \<Rightarrow> 'img \<Rightarrow> exn + string" where
  "pil_to_base64 world img =
     (case png_base64 world img of
        Inl e \<Rightarrow> Inl e
      | Inr img_str \<Rightarrow> Inr (''data:image/png;base64,'' @ img_str))"

definition img_tag :: "string \<Rightarrow> string" where
  "img_tag img_base64 =
     ''<img src='' @ [CHR 0x27] @ img_base64 @ [CHR 0x27] @ '' style='' @ [CHR 0x27] @
     ''width: 100px; margin: 5px;'' @ [CHR 0x27] @ ''>''"

fun html_members ::
  "('img, 'emb) env \<Rightarrow> (string \<times> 'img) list \<Rightarrow> string list \<Rightarrow> string \<Rightarrow> exn + string" where
  "html_members world images [] html_output = Inr html_output"
| "html_members world images (filename # rest) html_output =
     (case map_of images filename of
        None \<Rightarrow> Inl (KeyError filename)
      | Some img \<Rightarrow>
          (case pil_to_base64 world img of
             Inl e \<Rightarrow> Inl e
           | Inr img_base64 \<Rightarrow>
               html_members world images rest (html_output @ img_tag img_base64)))"

fun html_clusters ::
  "('img, 'emb) env \<Rightarrow> (string \<times> 'img) list \<Rightarrow> (int \<times> string list) list \<Rightarrow> string
     \<Rightarrow> exn + string" where
  "html_clusters world images [] html_output = Inr html_output"
| "html_clusters world images ((cluster_id, filenames) # rest) html_output =
     (case html_members world images filenames
             (html_output @ ''<h3>Cluster '' @ str_int cluster_id @ ''</h3>'' @
              ''<div style='' @ [CHR 0x27] @ ''display:flex; flex-wrap: wrap;'' @ [CHR 0x27] @ ''>'') of
        Inl e \<Rightarrow> Inl e
      | Inr html \<Rightarrow> html_clusters world images rest (html @ ''</div>''))"

definition cluster_images_gui ::
  "(int \<Rightarrow> real list list \<Rightarrow> int list) \<Rightarrow> ('img, real list) env
     \<Rightarrow> ('img, real list) state option \<Rightarrow> int \<Rightarrow> exn + string" where
  "cluster_images_gui kmeans_labels world state num_clusters =
     (case state of
        None \<Rightarrow> Inr ''No images loaded.''
      | Some st \<Rightarrow>
          (case cluster_images kmeans_labels (st_embeddings st) num_clusters of
             Inl e \<Rightarrow> Inl e
           | Inr clusters \<Rightarrow> html_clusters world (st_images st) clusters []))"

section \<open>Notions used to state the claims about loading\<close>

text \<open>
  The images a load ended with: those of the state it returned, none when it returned
  the state \<open>None\<close> or raised.
\<close>

definition loaded_images :: "('img, 'emb) outcome \<Rightarrow> (string \<times> 'img) list" where
  "loaded_images r =
     (case snd r of
        Inl e \<Rightarrow> []
      | Inr (status, state) \<Rightarrow> (case state of None \<Rightarrow> [] | Some st \<Rightarrow> st_images st))"

text \<open>The paths a local walk and a remote walk try to open, in order.\<close>

definition walk_paths :: "(string \<times> string list \<times> string list) list \<Rightarrow> string list" where
  "walk_paths items = concat (map (\<lambda>(root_dir, dirs, files_in_dir). image_paths root_dir files_in_dir) items)"

fun step_paths :: "walk_step \<Rightarrow> string list" where
  "step_paths (Listing root_dir dirs files_in_dir) = image_paths root_dir files_in_dir"
| "step_paths (ListError top_path e) = []"

definition steps_paths :: "walk_step list \<Rightarrow> string list" where
  "steps_paths steps = concat (map step_paths steps)"




text \<open>The events that open or close the remote connection.\<close>

fun is_connect :: "event \<Rightarrow> bool" where
  "is_connect (Connect server) = True"
| "is_connect ev = False"

fun session_event :: "event \<Rightarrow> bool" where
  "session_event (Connect server) = True"
| "session_event Close = True"
| "session_event ev = False"

text \<open>The events of loading uploaded files: opening one of them, or printing.\<close>

fun upload_event :: "string list \<Rightarrow> event \<Rightarrow> bool" where
  "upload_event files (ImageOpen p) = (p \<in> set files)"
| "upload_event files (Print line) = True"
| "upload_event files ev = False"


text \<open>The status messages load\_images\_combined returns with the state \<open>None\<close>.\<close>

definition error_statuses :: "string list" where
  "error_statuses =
     [''Invalid SMB URL: SMB URL must contain at least server and share'',
      ''Connection failed.'',
      ''Invalid folder path provided.'',
      ''No images provided'',
      ''No images loaded'']"



section \<open>A small world to run the program in\<close>

text \<open>
  A local folder \<open>/pics\<close> and a share \<open>photos\<close> on the server \<open>nas\<close>, each with a
  text file, a file that does not decode and a subdirectory; a server \<open>down\<close> that
  cannot be reached, and every other server refusing the session; an upload
  \<open>huge.png\<close> that opens and is too much for the embedding model. Images and
  embeddings are numbers.
\<close>

definition demo_world :: "(nat, nat) env" where
  "demo_world =
     \<lparr>image_open = (\<lambda>p. if p = ''/pics/a.png'' then Inr 1
                        else if p = ''/pics/sub/b.JPG'' then Inr 2
                        else if p = ''up.png'' then Inr 3
                        else if p = ''huge.png'' then Inr 99
                        else Inl (Exn ''cannot identify image file'')),
      isdir = (\<lambda>p. p = ''/pics''),
      os_walk = (\<lambda>p. if p = ''/pics''
                     then [(''/pics'', [''sub''], [''a.png'', ''notes.txt'', ''bad.png'']),
                           (''/pics/sub'', [], [''b.JPG''])]
                     else []),
      smb_connection = (\<lambda>server. None),
      smb_connect = (\<lambda>server. if server = ''nas'' then Inr True
                               else if server = ''down'' then Inl (Exn ''timed out'')
                               else Inr False),
      smb_listPath = (\<lambda>server share p.
                        if p = ''/''
                        then Inr [SharedFile ''.'' True, SharedFile ''..'' True,
                                  SharedFile ''a.jpg'' False, SharedFile ''notes.txt'' False,
                                  SharedFile ''sub'' True, SharedFile ''locked'' True]
                        else if p = ''/sub''
                        then Inr [SharedFile ''.'' True, SharedFile ''..'' True,
                                  SharedFile ''b.PNG'' False, SharedFile ''bad.jpeg'' False]
                        else Inl (Exn ''access denied'')),
      smb_retrieveFile = (\<lambda>server share p.
                            if p = ''/a.jpg'' then Inr 4
                            else if p = ''/sub/b.PNG'' then Inr 5
                            else Inl (Exn ''cannot identify image file'')),
      smb_close = (\<lambda>server. None),
      encode_image = (\<lambda>img. if img = 99 then Inl (Exn ''out of memory'') else Inr (10 * img)),
      encode_text = (\<lambda>prompt. Inr (length prompt)),
      png_base64 = (\<lambda>img. Inr ''AAAA'')\<rparr>"

section \<open>Facts about the string operations\<close>

lemma split_on_nonempty: "split_on c s \<noteq> []"
  by (induction s) (auto split: list.splits)

lemma split_on_free: "c \<notin> set p \<Longrightarrow> split_on c p = [p]"
  by (induction p) auto

lemma split_on_append: "c \<notin> set p \<Longrightarrow> split_on c (p @ c # rest) = p # split_on c rest"
  by (induction p) auto

lemma length_split_on: "length (split_on c s) = Suc (length (filter (\<lambda>x. x = c) s))"
  by (induction s) (auto split: list.splits simp: split_on_nonempty)

lemma split_on_short: "length (split_on c s) < 2 \<longleftrightarrow> c \<notin> set s"
  by (auto simp: length_split_on filter_empty_conv)

lemma split_on_path_of:
  "\<forall>p \<in> set ps. CHR ''/'' \<notin> set p \<Longrightarrow> CHR ''/'' \<notin> set q \<Longrightarrow>
   split_on CHR ''/'' (q @ path_of ps) = q # ps"
proof (induction ps arbitrary: q)
  case Nil
  then show ?case by (simp add: path_of_def split_on_free)
next
  case (Cons a ps)
  have "q @ path_of (a # ps) = q @ CHR ''/'' # (a @ path_of ps)"
    by (simp add: path_of_def)
  then show ?case using Cons by (simp add: split_on_append)
qed

lemma join_path_of: "ps \<noteq> [] \<Longrightarrow> CHR ''/'' # join ''/'' ps = path_of ps"
  by (induction "''/''" ps rule: join.induct) (auto simp: path_of_def)

lemma split_on_smb_url:
  assumes "slash_free server" "slash_free share" "\<forall>p \<in> set ps. slash_free p"
  shows "split_on CHR ''/'' (server @ ''/'' @ share @ path_of ps) = server # share # ps"
  using assms split_on_path_of[of ps share] by (simp add: split_on_append slash_free_def)

section \<open>Claims about parse\_smb\_url\<close>

text \<open>
  C4, as stated, at \<open>smb://s/h//a\<close>: the components after the share are the empty
  string and \<open>a\<close>, the claim gives the relative path \<open>//a\<close>, and the guard
  \<open>parts[2] != ""\<close> makes parse\_smb\_url return \<open>/\<close>.
\<close>

theorem C4_counterexample:
  "smb_url ''s'' ''h'' ['''', ''a''] = ''smb://s/h//a'' \<and>
   path_of ['''', ''a''] = ''//a'' \<and>
   parse_smb_url ''smb://s/h//a'' = Inr (''s'', ''h'', ''/'') \<and>
   parse_smb_url (smb_url ''s'' ''h'' ['''', ''a'']) \<noteq> Inr (''s'', ''h'', path_of ['''', ''a''])"
  by (simp add: smb_url_def path_of_def parse_smb_url_def startswith_def Let_def)

text \<open>
  C4, amended. For slash-free components, parse\_smb\_url applied to
  \<open>smb://server/share/p1/.../pn\<close> returns \<open>(server, share, /p1/.../pn)\<close> when the first
  path component is not empty, and \<open>(server, share, /)\<close> when no path component
  follows the share or the first one is empty. For every string, it raises exactly when
  the string does not start with \<open>smb://\<close> or has fewer than two slash-separated
  components after the prefix (no slash after it), and what it raises is a ValueError.
\<close>

theorem C4_parse_smb_url:
  assumes "slash_free server" and "slash_free share" and "\<forall>p \<in> set ps. slash_free p"
  shows "parse_smb_url (smb_url server share ps) =
           Inr (server, share, if ps = [] \<or> hd ps = [] then [CHR ''/''] else path_of ps) \<and>
         ((\<exists>e. parse_smb_url url = Inl e) \<longleftrightarrow>
           (\<not> startswith url ''smb://'' \<or> length (split_on CHR ''/'' (drop 6 url)) < 2)) \<and>
         ((\<exists>e. parse_smb_url url = Inl e) \<longleftrightarrow>
           (\<not> startswith url ''smb://'' \<or> CHR ''/'' \<notin> set (drop 6 url))) \<and>
         (\<forall>e. parse_smb_url url = Inl e \<longrightarrow> (\<exists>m. e = ValueError m))"
proof -
  have sp: "split_on CHR ''/'' (server @ ''/'' @ share @ path_of ps) = server # share # ps"
    using assms by (rule split_on_smb_url)
  have r: "parse_smb_url (smb_url server share ps) =
           Inr (server, share, if ps = [] \<or> hd ps = [] then [CHR ''/''] else path_of ps)"
    unfolding parse_smb_url_def smb_url_def
    using sp by (cases ps) (auto simp: startswith_def Let_def join_path_of)
  have a: "(\<exists>e. parse_smb_url url = Inl e) \<longleftrightarrow>
           (\<not> startswith url ''smb://'' \<or> length (split_on CHR ''/'' (drop 6 url)) < 2)"
    by (auto simp: parse_smb_url_def Let_def)
  have b: "(\<exists>e. parse_smb_url url = Inl e) \<longleftrightarrow>
           (\<not> startswith url ''smb://'' \<or> CHR ''/'' \<notin> set (drop 6 url))"
    using a by (simp only: split_on_short)
  have c: "\<forall>e. parse_smb_url url = Inl e \<longrightarrow> (\<exists>m. e = ValueError m)"
    by (auto simp: parse_smb_url_def Let_def split: if_splits)
  from r a b c show ?thesis by blast
qed

theorem C4_parse_smb_url_witness:
  "slash_free ''nas'' \<and> slash_free ''photos'' \<and> slash_free ''2024'' \<and> slash_free ''trip'' \<and>
   parse_smb_url ''smb://nas/photos/2024/trip'' = Inr (''nas'', ''photos'', ''/2024/trip'') \<and>
   parse_smb_url ''smb://nas/photos'' = Inr (''nas'', ''photos'', ''/'') \<and>
   parse_smb_url ''smb://nas/photos/'' = Inr (''nas'', ''photos'', ''/'') \<and>
   (\<exists>e. parse_smb_url ''smb://nas'' = Inl e) \<and>
   (\<exists>e. parse_smb_url ''/home/me/pics'' = Inl e)"
  using C4_parse_smb_url [of "''nas''" "''photos''" "[''2024'', ''trip'']" "''smb://nas''"]
        C4_parse_smb_url [of "''nas''" "''photos''" "[]" "''/home/me/pics''"]
        C4_parse_smb_url [of "''nas''" "''photos''" "[[]]" "''smb://nas''"]
  by (simp add: slash_free_def smb_url_def path_of_def startswith_def)

section \<open>Facts about dictionaries and sorting\<close>

lemma update_fresh: "k \<notin> fst ` set al \<Longrightarrow> AList.update k v al = al @ [(k, v)]"
  by (induction al) auto








text \<open>
  The sort leaves a list as it is when no element is less than the one before it.
\<close>

lemma sift_run: "\<not> lt (key x) (key y) \<Longrightarrow> sift lt key x (y # ys) = x # y # ys"
  by simp

lemma list_sort_snoc: "list_sort lt key (xs @ [x]) = rev (sift lt key x (rev (list_sort lt key xs)))"
  by (simp add: list_sort_def)

lemma list_sort_run:
  "successively (\<lambda>a b. \<not> lt (key b) (key a)) xs \<Longrightarrow> list_sort lt key xs = xs"
proof (induction xs rule: rev_induct)
  case Nil
  then show ?case by (simp add: list_sort_def)
next
  case (snoc x xs)
  have s: "successively (\<lambda>a b. \<not> lt (key b) (key a)) xs"
    using snoc.prems by (simp add: successively_append_iff)
  have l: "xs \<noteq> [] \<Longrightarrow> \<not> lt (key x) (key (last xs))"
    using snoc.prems by (simp add: successively_append_iff)
  show ?case
  proof (cases "rev xs")
    case Nil
    then show ?thesis by (simp add: list_sort_def)
  next
    case (Cons y ys)
    then have "last xs = y" "xs \<noteq> []" by (metis last_rev list.sel(1) rev_rev_ident, auto)
    then have "sift lt key x (rev xs) = x # rev xs" using l Cons by simp
    then show ?thesis unfolding list_sort_snoc snoc.IH[OF s] by simp
  qed
qed

section \<open>Claims about search\_similar\_images\<close>















section \<open>Claims about cluster\_images\<close>

lemma clusters_append_keys:
  "clusters_append c l f = Inr c' \<Longrightarrow> map fst c' = map fst c"
proof -
  assume a: "clusters_append c l f = Inr c'"
  then obtain ms where ms: "map_of c l = Some ms" "c' = AList.update l (ms @ [f]) c"
    by (auto simp: clusters_append_def split: option.splits)
  from ms(1) have "l \<in> fst ` set c" by (metis map_of_eq_None_iff option.distinct(1))
  then show ?thesis using ms(2) by (simp add: update_keys)
qed

lemma mset_concat_update:
  "map_of c l = Some ms \<Longrightarrow>
   mset (concat (map snd (AList.update l (ms @ [f]) c))) = mset (concat (map snd c)) + {#f#}"
  by (induction c) (auto split: if_splits)

lemma clusters_append_members:
  "clusters_append c l f = Inr c' \<Longrightarrow>
   mset (concat (map snd c')) = mset (concat (map snd c)) + {#f#}"
  by (auto simp: clusters_append_def mset_concat_update split: option.splits)

lemma clusters_append_ok:
  "l \<in> set (map fst c) \<Longrightarrow> \<exists>c'. clusters_append c l f = Inr c'"
  by (auto simp: clusters_append_def map_of_eq_None_iff split: option.splits)

lemma assign_loop_ok:
  "list_all (\<lambda>p. snd p \<in> set (map fst c)) pairs \<Longrightarrow>
   \<exists>c'. assign_loop pairs c = Inr c' \<and> map fst c' = map fst c \<and>
        mset (concat (map snd c')) = mset (concat (map snd c)) + mset (map fst pairs)"
proof (induction pairs arbitrary: c)
  case Nil
  then show ?case by simp
next
  case (Cons p pairs)
  obtain f l where p: "p = (f, l)" by (cases p)
  from Cons.prems have "l \<in> set (map fst c)" by (simp add: p)
  then obtain c1 where c1: "clusters_append c l f = Inr c1"
    using clusters_append_ok by blast
  have k1: "map fst c1 = map fst c" using c1 by (rule clusters_append_keys)
  have m1: "mset (concat (map snd c1)) = mset (concat (map snd c)) + {#f#}"
    using c1 by (rule clusters_append_members)
  have "list_all (\<lambda>p. snd p \<in> set (map fst c1)) pairs"
    using Cons.prems k1 by simp
  from Cons.IH[OF this] obtain c' where
    "assign_loop pairs c1 = Inr c'" "map fst c' = map fst c1"
    "mset (concat (map snd c')) = mset (concat (map snd c1)) + mset (map fst pairs)"
    by blast
  then show ?case using c1 k1 m1 by (simp add: p)
qed

lemma set_py_range: "l \<in> set (py_range n) \<longleftrightarrow> 0 \<le> l \<and> l < n"
  by (auto simp: py_range_def)

lemma length_py_range: "length (py_range n) = nat n"
  by (simp add: py_range_def)

lemma once_in_concat:
  "distinct (concat xss) \<Longrightarrow> x \<in> set (concat xss) \<Longrightarrow>
   length (filter (\<lambda>xs. x \<in> set xs) xss) = 1"
proof (induction xss)
  case Nil
  then show ?case by simp
next
  case (Cons xs xss)
  show ?case
  proof (cases "x \<in> set xs")
    case True
    then have "\<forall>ys \<in> set xss. x \<notin> set ys" using Cons.prems(1) by auto
    then have "filter (\<lambda>xs. x \<in> set xs) xss = []" by (simp add: filter_empty_conv)
    then show ?thesis using True by simp
  next
    case False
    then show ?thesis using Cons by auto
  qed
qed

lemma np_vstack_rows:
  "rows_of_width d image_embeddings \<Longrightarrow> image_embeddings \<noteq> [] \<Longrightarrow>
   np_vstack (map snd image_embeddings) = Inr (map snd image_embeddings) \<and>
   hd (map snd image_embeddings) \<noteq> []"
proof -
  assume a: "rows_of_width d image_embeddings" "image_embeddings \<noteq> []"
  have w: "\<forall>row \<in> set (map snd image_embeddings). length row = d"
    using a(1) by (auto simp: rows_of_width_def list_all_iff)
  have h: "hd (map snd image_embeddings) \<in> set (map snd image_embeddings)"
    using a(2) by (intro hd_in_set) simp
  have "length (hd (map snd image_embeddings)) = d" using w h by blast
  then show ?thesis using a w by (auto simp: np_vstack_def list_all_iff rows_of_width_def)
qed

lemma np_vstack_Inl: "np_vstack arrays = Inl e \<Longrightarrow> \<exists>m. e = ValueError m"
  by (auto simp: np_vstack_def split: if_splits)

lemma np_vstack_Inr: "np_vstack arrays = Inr X \<Longrightarrow> X = arrays \<and> arrays \<noteq> []"
  by (auto simp: np_vstack_def split: if_splits)

lemma KMeans_fit_Inl: "KMeans_fit kmeans_labels n X = Inl e \<Longrightarrow> \<exists>m. e = ValueError m"
  by (auto simp: KMeans_fit_def split: if_splits)

lemma KMeans_fit_range:
  "n < 1 \<or> int (length X) < n \<Longrightarrow> \<exists>m. KMeans_fit kmeans_labels n X = Inl (ValueError m)"
  by (auto simp: KMeans_fit_def)

lemma KMeans_fit_Inr:
  "1 \<le> n \<Longrightarrow> n \<le> int (length X) \<Longrightarrow> hd X \<noteq> [] \<Longrightarrow>
   KMeans_fit kmeans_labels n X = Inr (kmeans_labels n X)"
  by (auto simp: KMeans_fit_def)

lemma cluster_images_range:
  assumes "num_clusters < 1 \<or> int (length image_embeddings) < num_clusters"
  shows "\<exists>m. cluster_images kmeans_labels image_embeddings num_clusters = Inl (ValueError m)"
proof (cases "np_vstack (map snd image_embeddings)")
  case (Inl e)
  then show ?thesis using np_vstack_Inl[OF Inl] by (auto simp: cluster_images_def)
next
  case (Inr X)
  from np_vstack_Inr[OF Inr] have X: "X = map snd image_embeddings" by simp
  have "num_clusters < 1 \<or> int (length X) < num_clusters" using assms X by simp
  from KMeans_fit_range[OF this, of kmeans_labels] obtain m where
    "KMeans_fit kmeans_labels num_clusters X = Inl (ValueError m)" by blast
  then show ?thesis using Inr by (simp add: cluster_images_def)
qed

text \<open>
  C2, amended. cluster\_images raises a ValueError, and returns no dictionary, when
  \<open>num_clusters\<close> is below 1 or above the number of images. Let \<open>image_embeddings\<close>
  be a dict whose embeddings are rows of one length, not 0, let \<open>num_clusters\<close> be at
  least 1 and at most the number of images, and let the labels of the fit be as
  scikit-learn promises (one per image, each in \<open>range(num_clusters)\<close>). Then
  cluster\_images returns a dict whose keys are exactly \<open>0, ..., num_clusters - 1\<close>, in
  this order, and whose groups taken together hold every input filename once: each
  filename is in exactly one group.
\<close>

theorem C2_cluster_images:
  "(num_clusters < 1 \<or> int (length image_embeddings) < num_clusters \<longrightarrow>
      (\<exists>m. cluster_images kmeans_labels image_embeddings num_clusters = Inl (ValueError m))) \<and>
   (is_dict image_embeddings \<and> rows_of_width d image_embeddings \<and>
    1 \<le> num_clusters \<and> num_clusters \<le> int (length image_embeddings) \<and>
    valid_labels num_clusters (length image_embeddings)
      (kmeans_labels num_clusters (map snd image_embeddings)) \<longrightarrow>
      (\<exists>clusters. cluster_images kmeans_labels image_embeddings num_clusters = Inr clusters \<and>
           map fst clusters = py_range num_clusters \<and>
           length clusters = nat num_clusters \<and>
           mset (concat (map snd clusters)) = mset (map fst image_embeddings) \<and>
           distinct (concat (map snd clusters)) \<and>
           list_all (\<lambda>filename. length (filter (\<lambda>(i, members). filename \<in> set members) clusters) = 1)
             (map fst image_embeddings)))"
proof (intro conjI impI)
  assume "num_clusters < 1 \<or> int (length image_embeddings) < num_clusters"
  then show "\<exists>m. cluster_images kmeans_labels image_embeddings num_clusters = Inl (ValueError m)"
    by (rule cluster_images_range)
next
  assume a: "is_dict image_embeddings \<and> rows_of_width d image_embeddings \<and>
    1 \<le> num_clusters \<and> num_clusters \<le> int (length image_embeddings) \<and>
    valid_labels num_clusters (length image_embeddings)
      (kmeans_labels num_clusters (map snd image_embeddings))"
  let ?fs = "map fst image_embeddings"
  let ?X = "map snd image_embeddings"
  let ?labels = "kmeans_labels num_clusters ?X"
  let ?c0 = "map (\<lambda>i. (i, [])) (py_range num_clusters) :: (int \<times> string list) list"
  have ne: "image_embeddings \<noteq> []" using a by auto
  have v: "np_vstack ?X = Inr ?X" "hd ?X \<noteq> []"
    using np_vstack_rows[of d image_embeddings] a ne by simp_all
  have f: "KMeans_fit kmeans_labels num_clusters ?X = Inr ?labels"
    using a v(2) by (intro KMeans_fit_Inr) simp_all
  have len: "length ?labels = length ?fs" using a by (simp add: valid_labels_def)
  have k0: "map fst ?c0 = py_range num_clusters" by (simp add: comp_def)
  have "list_all (\<lambda>p. snd p \<in> set (map fst ?c0)) (zip ?fs ?labels)"
    unfolding k0 list_all_iff
  proof
    fix p assume "p \<in> set (zip ?fs ?labels)"
    then have "snd p \<in> set ?labels" by (metis prod.collapse set_zip_rightD)
    then show "snd p \<in> set (py_range num_clusters)"
      using a by (simp add: valid_labels_def list_all_iff set_py_range)
  qed
  from assign_loop_ok[OF this] obtain c' where c':
    "assign_loop (zip ?fs ?labels) ?c0 = Inr c'" "map fst c' = map fst ?c0"
    "mset (concat (map snd c')) = mset (concat (map snd ?c0)) + mset (map fst (zip ?fs ?labels))"
    by blast
  have e0: "concat (map snd ?c0) = []" by (simp add: comp_def)
  have m: "mset (concat (map snd c')) = mset ?fs"
    using c'(3) len unfolding e0 by simp
  have d: "distinct (concat (map snd c'))"
    using m a unfolding is_dict_def by (metis mset_eq_imp_distinct_iff)
  have r: "cluster_images kmeans_labels image_embeddings num_clusters = Inr c'"
    using v(1) f c'(1) by (simp add: cluster_images_def Let_def)
  have l: "length c' = nat num_clusters"
    using c'(2) k0 length_py_range by (metis length_map)
  have o: "list_all (\<lambda>filename. length (filter (\<lambda>(i, members). filename \<in> set members) c') = 1) ?fs"
    unfolding list_all_iff
  proof
    fix filename assume "filename \<in> set ?fs"
    then have "filename \<in> set (concat (map snd c'))" using m by (metis set_mset_mset)
    from once_in_concat[OF d this]
    have "length (filter (\<lambda>xs. filename \<in> set xs) (map snd c')) = 1" .
    moreover have "length (filter (\<lambda>xs. filename \<in> set xs) (map snd c')) =
        length (filter (\<lambda>(i, members). filename \<in> set members) c')"
      by (simp add: filter_map comp_def case_prod_unfold)
    ultimately show "length (filter (\<lambda>(i, members). filename \<in> set members) c') = 1" by simp
  qed
  have k: "map fst c' = py_range num_clusters" using c'(2) k0 by simp
  from r k l m d o show "\<exists>clusters. cluster_images kmeans_labels image_embeddings num_clusters = Inr clusters \<and>
           map fst clusters = py_range num_clusters \<and>
           length clusters = nat num_clusters \<and>
           mset (concat (map snd clusters)) = mset (map fst image_embeddings) \<and>
           distinct (concat (map snd clusters)) \<and>
           list_all (\<lambda>filename. length (filter (\<lambda>(i, members). filename \<in> set members) clusters) = 1)
             (map fst image_embeddings)"
    by blast
qed

lemma str_int_1_5: "str_int 1 = ''1''" "str_int 5 = ''5''"
  by code_simp+

lemma cluster_example:
  "cluster_images by_first_entry
     [(''a.png'', [0, 1]), (''b.png'', [1, 0]), (''c.png'', [0, 2])] 2 =
   Inr [(0, [''a.png'', ''c.png'']), (1, [''b.png''])]"
  by (simp add: cluster_images_def np_vstack_def KMeans_fit_def by_first_entry_def
      py_range_def upto.simps clusters_append_def)

text \<open>
  C2, as stated, at one image and five clusters (the count the form starts with):
  scikit-learn refuses to fit fewer rows than clusters and cluster\_images raises; there
  is no dictionary of five groups.
\<close>

theorem C2_counterexample:
  "is_dict [(''a.png'', [1, 0 :: real])] \<and> [(''a.png'', [1, 0 :: real])] \<noteq> [] \<and>
   cluster_images one_cluster [(''a.png'', [1, 0])] 5 =
     Inl (ValueError ''n_samples=1 should be >= n_clusters=5.'')"
  by (simp add: is_dict_def cluster_images_def np_vstack_def KMeans_fit_def str_int_1_5)

theorem C2_cluster_images_witness:
  "is_dict [(''a.png'', [0, 1 :: real]), (''b.png'', [1, 0]), (''c.png'', [0, 2])] \<and>
   rows_of_width 2 [(''a.png'', [0, 1]), (''b.png'', [1, 0]), (''c.png'', [0, 2])] \<and>
   valid_labels 2 (length [(''a.png'', [0, 1 :: real]), (''b.png'', [1, 0]), (''c.png'', [0, 2])])
     (by_first_entry 2 (map snd [(''a.png'', [0, 1]), (''b.png'', [1, 0]), (''c.png'', [0, 2])])) \<and>
   cluster_images by_first_entry
     [(''a.png'', [0, 1]), (''b.png'', [1, 0]), (''c.png'', [0, 2])] 2 =
     Inr [(0, [''a.png'', ''c.png'']), (1, [''b.png''])] \<and>
   map fst [(0 :: int, [''a.png'', ''c.png'']), (1, [''b.png''])] = py_range 2 \<and>
   distinct (concat (map snd [(0 :: int, [''a.png'', ''c.png'']), (1, [''b.png''])])) \<and>
   (\<exists>m. cluster_images by_first_entry
          [(''a.png'', [0, 1]), (''b.png'', [1, 0]), (''c.png'', [0, 2])] 5 = Inl (ValueError m))"
proof -
  let ?items = "[(''a.png'', [0, 1 :: real]), (''b.png'', [1, 0]), (''c.png'', [0, 2])]"
  have h1: "is_dict ?items" by (simp add: is_dict_def)
  have h2: "rows_of_width 2 ?items" by (simp add: rows_of_width_def)
  have h3: "valid_labels 2 (length ?items) (by_first_entry 2 (map snd ?items))"
    by (simp add: valid_labels_def by_first_entry_def)
  from C2_cluster_images[of 2 ?items by_first_entry 2] h1 h2 h3 obtain clusters where
    c: "cluster_images by_first_entry ?items 2 = Inr clusters"
       "map fst clusters = py_range 2" "distinct (concat (map snd clusters))"
    by auto
  have e: "clusters = [(0, [''a.png'', ''c.png'']), (1, [''b.png''])]"
    using c(1) cluster_example by simp
  have "\<exists>m. cluster_images by_first_entry ?items 5 = Inl (ValueError m)"
    using C2_cluster_images[of 5 ?items by_first_entry 2] by simp
  then show ?thesis using h1 h2 h3 c e cluster_example by simp
qed

section \<open>Facts about the loading loops\<close>

lemma load_paths_snd_Cons:
  "snd (load_paths opn att msg (p # ps) imgs) =
   snd (load_paths opn att msg ps
          (case opn p of Inl e \<Rightarrow> imgs | Inr img \<Rightarrow> AList.update p img imgs))"
  by (simp split: sum.splits prod.splits)

lemma load_paths_fst_Cons:
  "fst (load_paths opn att msg (p # ps) imgs) =
   att p # (case opn p of Inl e \<Rightarrow> [Print (msg @ '' '' @ p @ '' '' @ exn_str e)] | Inr img \<Rightarrow> []) @
   fst (load_paths opn att msg ps
          (case opn p of Inl e \<Rightarrow> imgs | Inr img \<Rightarrow> AList.update p img imgs))"
  by (simp split: sum.splits prod.splits)

lemma load_paths_append:
  "load_paths opn att msg (ps @ qs) imgs =
   (fst (load_paths opn att msg ps imgs) @
      fst (load_paths opn att msg qs (snd (load_paths opn att msg ps imgs))),
    snd (load_paths opn att msg qs (snd (load_paths opn att msg ps imgs))))"
  by (induction ps arbitrary: imgs) (auto split: sum.splits prod.splits)


lemma load_paths_distinct:
  "distinct (map fst imgs) \<Longrightarrow> distinct (map fst (snd (load_paths opn att msg ps imgs)))"
proof (induction ps arbitrary: imgs)
  case Nil
  then show ?case by simp
next
  case (Cons q ps)
  show ?case
    unfolding load_paths_snd_Cons
    by (rule Cons.IH) (simp add: Cons.prems distinct_update split: sum.splits)
qed

lemma load_paths_keys:
  "fst ` set (snd (load_paths opn att msg ps imgs)) =
   fst ` set imgs \<union> {p \<in> set ps. \<exists>img. opn p = Inr img}"
proof (induction ps arbitrary: imgs)
  case Nil
  then show ?case by simp
next
  case (Cons q ps)
  have k: "fst ` set (AList.update q img imgs) = insert q (fst ` set imgs)" for img
    using dom_update[of q img imgs] by (simp add: dom_map_of_conv_image_fst)
  show ?case
    unfolding load_paths_snd_Cons Cons.IH
    by (cases "opn q") (auto simp: k)
qed



lemma load_paths_events:
  "ev \<in> set (fst (load_paths opn att msg ps imgs)) \<Longrightarrow>
   (\<exists>p \<in> set ps. ev = att p) \<or> (\<exists>line. ev = Print line)"
proof (induction ps arbitrary: imgs)
  case Nil
  then show ?case by simp
next
  case (Cons q ps)
  from Cons.prems show ?case
    unfolding load_paths_fst_Cons
    by (cases "opn q") (auto dest: Cons.IH)
qed

lemma load_local_walk_paths:
  "load_local_walk world items imgs =
   load_paths (image_open world) ImageOpen ''Error loading local file:'' (walk_paths items) imgs"
proof (induction items arbitrary: imgs)
  case Nil
  then show ?case by (simp add: walk_paths_def)
next
  case (Cons it items)
  obtain r d f where it: "it = (r, d, f)" by (cases it)
  have w: "walk_paths (it # items) = image_paths r f @ walk_paths items"
    by (simp add: walk_paths_def it)
  show ?case
    unfolding w load_paths_append
    by (simp add: it Cons.IH split: prod.splits)
qed

lemma load_smb_walk_snd_Listing:
  "snd (load_smb_walk world server share (Listing r d f # rest) imgs) =
   snd (load_smb_walk world server share rest
          (snd (load_paths (smb_retrieveFile world server share) (RetrieveFile share)
                  ''Error loading SMB file:'' (image_paths r f) imgs)))"
  by (simp split: prod.splits)

lemma load_smb_walk_fst_Listing:
  "fst (load_smb_walk world server share (Listing r d f # rest) imgs) =
   ListPath share r #
   fst (load_paths (smb_retrieveFile world server share) (RetrieveFile share)
          ''Error loading SMB file:'' (image_paths r f) imgs) @
   fst (load_smb_walk world server share rest
          (snd (load_paths (smb_retrieveFile world server share) (RetrieveFile share)
                  ''Error loading SMB file:'' (image_paths r f) imgs)))"
  by (simp split: prod.splits)

lemma load_smb_walk_snd_ListError:
  "snd (load_smb_walk world server share (ListError t e # rest) imgs) =
   snd (load_smb_walk world server share rest imgs)"
  by (simp split: prod.splits)

lemma load_smb_walk_fst_ListError:
  "fst (load_smb_walk world server share (ListError t e # rest) imgs) =
   ListPath share t # Print (''Error listing directory '' @ t @ '': '' @ exn_str e) #
   fst (load_smb_walk world server share rest imgs)"
  by (simp split: prod.splits)

lemma steps_paths_Listing:
  "steps_paths (Listing r d f # steps) = image_paths r f @ steps_paths steps"
  by (simp add: steps_paths_def)

lemma steps_paths_ListError: "steps_paths (ListError t e # steps) = steps_paths steps"
  by (simp add: steps_paths_def)

lemma load_smb_walk_snd:
  "snd (load_smb_walk world server share steps imgs) =
   snd (load_paths (smb_retrieveFile world server share) (RetrieveFile share)
          ''Error loading SMB file:'' (steps_paths steps) imgs)"
proof (induction steps arbitrary: imgs)
  case Nil
  then show ?case by (simp add: steps_paths_def)
next
  case (Cons st steps)
  show ?case
  proof (cases st)
    case (Listing r d f)
    show ?thesis
      unfolding Listing load_smb_walk_snd_Listing steps_paths_Listing Cons.IH load_paths_append
      by simp
  next
    case (ListError t e)
    show ?thesis
      unfolding ListError load_smb_walk_snd_ListError steps_paths_ListError Cons.IH
      by simp
  qed
qed



lemma load_smb_walk_events:
  "ev \<in> set (fst (load_smb_walk world server share steps imgs)) \<Longrightarrow>
   (\<exists>p \<in> set (steps_paths steps). ev = RetrieveFile share p) \<or>
   (\<exists>line. ev = Print line) \<or> (\<exists>t. ev = ListPath share t)"
proof (induction steps arbitrary: imgs)
  case Nil
  then show ?case by simp
next
  case (Cons st steps)
  show ?case
  proof (cases st)
    case (Listing r d f)
    let ?lp = "load_paths (smb_retrieveFile world server share) (RetrieveFile share)
                 ''Error loading SMB file:'' (image_paths r f) imgs"
    from Cons.prems have "ev = ListPath share r \<or> ev \<in> set (fst ?lp) \<or>
        ev \<in> set (fst (load_smb_walk world server share steps (snd ?lp)))"
      unfolding Listing load_smb_walk_fst_Listing by simp
    moreover have "ev \<in> set (fst ?lp) \<Longrightarrow> ?thesis"
    proof -
      assume "ev \<in> set (fst ?lp)"
      from load_paths_events[OF this]
      show ?thesis unfolding Listing steps_paths_Listing by auto
    qed
    moreover have "ev \<in> set (fst (load_smb_walk world server share steps (snd ?lp))) \<Longrightarrow> ?thesis"
    proof -
      assume "ev \<in> set (fst (load_smb_walk world server share steps (snd ?lp)))"
      from Cons.IH[OF this]
      show ?thesis unfolding Listing steps_paths_Listing by auto
    qed
    ultimately show ?thesis by blast
  next
    case (ListError t e)
    from Cons.prems have "ev = ListPath share t \<or> (\<exists>line. ev = Print line) \<or>
        ev \<in> set (fst (load_smb_walk world server share steps imgs))"
      unfolding ListError load_smb_walk_fst_ListError by auto
    moreover have "ev \<in> set (fst (load_smb_walk world server share steps imgs)) \<Longrightarrow> ?thesis"
    proof -
      assume "ev \<in> set (fst (load_smb_walk world server share steps imgs))"
      from Cons.IH[OF this]
      show ?thesis unfolding ListError steps_paths_ListError by auto
    qed
    ultimately show ?thesis by blast
  qed
qed

lemma embeddings_loop_Inr:
  "distinct (map fst imgs) \<Longrightarrow> fst ` set imgs \<inter> fst ` set acc = {} \<Longrightarrow>
   embeddings_loop enc imgs acc = Inr embeddings \<Longrightarrow>
   map (\<lambda>(filename, embedding). (filename, Inr embedding)) embeddings =
   map (\<lambda>(filename, embedding). (filename, Inr embedding)) acc @
   map (\<lambda>(filename, img). (filename, enc img)) imgs"
proof (induction imgs arbitrary: acc)
  case Nil
  then show ?case by simp
next
  case (Cons it imgs)
  obtain fn img where it: "it = (fn, img)" by (cases it)
  from Cons.prems(3) obtain embedding where
    e: "enc img = Inr embedding"
       "embeddings_loop enc imgs (AList.update fn embedding acc) = Inr embeddings"
    by (auto simp: it split: sum.splits)
  have fresh: "fn \<notin> fst ` set acc" using Cons.prems(2) by (auto simp: it)
  have u: "AList.update fn embedding acc = acc @ [(fn, embedding)]"
    using fresh by (rule update_fresh)
  have d: "distinct (map fst imgs)" using Cons.prems(1) by simp
  have disj: "fst ` set imgs \<inter> fst ` set (acc @ [(fn, embedding)]) = {}"
    using Cons.prems by (auto simp: it)
  show ?case using Cons.IH[OF d disj e(2)[unfolded u]] e(1) by (simp add: it)
qed


lemma get_image_embeddings_Inr:
  "is_dict imgs \<Longrightarrow> get_image_embeddings world imgs = Inr embeddings \<Longrightarrow>
   map (\<lambda>(filename, embedding). (filename, Inr embedding)) embeddings =
   map (\<lambda>(filename, img). (filename, encode_image world img)) imgs"
  using embeddings_loop_Inr[of imgs "[]" "encode_image world" embeddings]
  by (simp add: get_image_embeddings_def is_dict_def)


lemma finish_load_Some:
  "finish_load world tr imgs = (tr', Inr (status, Some st)) \<Longrightarrow>
   tr' = tr \<and> status = ''Images loaded successfully'' \<and> imgs \<noteq> [] \<and>
   st_images st = imgs \<and> get_image_embeddings world imgs = Inr (st_embeddings st)"
  by (auto simp: finish_load_def split: if_splits sum.splits)

lemma finish_load_fst: "fst (finish_load world tr imgs) = tr"
  by (simp add: finish_load_def split: sum.splits)



lemma finish_load_keys: "set (map fst (loaded_images (finish_load world tr imgs))) \<subseteq> set (map fst imgs)"
  by (auto simp: finish_load_def loaded_images_def split: if_splits sum.splits)

lemma finish_load_status:
  "snd (finish_load world tr imgs) = Inr (status, st) \<Longrightarrow>
   (st = None \<longleftrightarrow> imgs = []) \<and>
   status = (if imgs = [] then ''No images loaded'' else ''Images loaded successfully'')"
  by (auto simp: finish_load_def split: if_splits sum.splits)

section \<open>The branches of load\_images\_combined\<close>

lemma startswith_nonempty: "startswith s ''smb://'' \<Longrightarrow> s \<noteq> []"
  by (auto simp: startswith_def)

lemma load_uploaded:
  "files \<noteq> [] \<Longrightarrow>
   load_images_combined world fuel files folder_path =
   Some (finish_load world
           (fst (load_paths (image_open world) ImageOpen ''Error loading file:'' files []))
           (snd (load_paths (image_open world) ImageOpen ''Error loading file:'' files [])))"
  by (simp add: load_images_combined_def split: prod.splits)

lemma load_local:
  "files = [] \<Longrightarrow> folder_path \<noteq> [] \<Longrightarrow> \<not> startswith folder_path ''smb://'' \<Longrightarrow>
   isdir world folder_path \<Longrightarrow>
   load_images_combined world fuel files folder_path =
   Some (finish_load world
           (OsWalk folder_path #
            fst (load_paths (image_open world) ImageOpen ''Error loading local file:''
                   (walk_paths (os_walk world folder_path)) []))
           (snd (load_paths (image_open world) ImageOpen ''Error loading local file:''
                   (walk_paths (os_walk world folder_path)) [])))"
  by (simp add: load_images_combined_def load_local_walk_paths split: prod.splits)

lemma load_smb:
  "files = [] \<Longrightarrow> startswith folder_path ''smb://'' \<Longrightarrow>
   parse_smb_url folder_path = Inr (server, share, rel_path) \<Longrightarrow>
   smb_connection world server = None \<Longrightarrow> smb_connect world server = Inr True \<Longrightarrow>
   smb_walk fuel world server share rel_path = Some steps \<Longrightarrow>
   load_images_combined world fuel files folder_path =
   Some (case smb_close world server of
           Some e \<Rightarrow> (Connect server # fst (load_smb_walk world server share steps []) @ [Close], Inl e)
         | None \<Rightarrow>
             finish_load world
               (Connect server # fst (load_smb_walk world server share steps []) @ [Close])
               (snd (load_smb_walk world server share steps [])))"
  by (simp add: load_images_combined_def startswith_nonempty split: prod.splits option.splits)

lemma load_smb_more_fuel:
  "files = [] \<Longrightarrow> startswith folder_path ''smb://'' \<Longrightarrow>
   parse_smb_url folder_path = Inr (server, share, rel_path) \<Longrightarrow>
   smb_connection world server = None \<Longrightarrow> smb_connect world server = Inr True \<Longrightarrow>
   smb_walk fuel world server share rel_path = None \<Longrightarrow>
   load_images_combined world fuel files folder_path = None"
  by (simp add: load_images_combined_def startswith_nonempty)

lemma load_no_connection:
  "files = [] \<Longrightarrow> startswith folder_path ''smb://'' \<Longrightarrow>
   parse_smb_url folder_path = Inr (server, share, rel_path) \<Longrightarrow>
   smb_connection world server = None \<Longrightarrow> smb_connect world server = Inr False \<Longrightarrow>
   load_images_combined world fuel files folder_path =
   Some ([Connect server], Inr (''Connection failed.'', None))"
  by (simp add: load_images_combined_def startswith_nonempty)

lemma load_connect_raises:
  "files = [] \<Longrightarrow> startswith folder_path ''smb://'' \<Longrightarrow>
   parse_smb_url folder_path = Inr (server, share, rel_path) \<Longrightarrow>
   smb_connection world server = None \<Longrightarrow> smb_connect world server = Inl e \<Longrightarrow>
   load_images_combined world fuel files folder_path = Some ([Connect server], Inl e)"
  by (simp add: load_images_combined_def startswith_nonempty)

lemma load_connection_raises:
  "files = [] \<Longrightarrow> startswith folder_path ''smb://'' \<Longrightarrow>
   parse_smb_url folder_path = Inr (server, share, rel_path) \<Longrightarrow>
   smb_connection world server = Some e \<Longrightarrow>
   load_images_combined world fuel files folder_path = Some ([], Inl e)"
  by (simp add: load_images_combined_def startswith_nonempty)

lemma load_invalid_url:
  "files = [] \<Longrightarrow> startswith folder_path ''smb://'' \<Longrightarrow> parse_smb_url folder_path = Inl e \<Longrightarrow>
   load_images_combined world fuel files folder_path =
   Some ([], Inr (''Invalid SMB URL: '' @ exn_str e, None))"
  by (simp add: load_images_combined_def startswith_nonempty)

lemma load_invalid_folder:
  "files = [] \<Longrightarrow> folder_path \<noteq> [] \<Longrightarrow> \<not> startswith folder_path ''smb://'' \<Longrightarrow>
   \<not> isdir world folder_path \<Longrightarrow>
   load_images_combined world fuel files folder_path =
   Some ([], Inr (''Invalid folder path provided.'', None))"
  by (simp add: load_images_combined_def)

lemma load_no_input:
  "files = [] \<Longrightarrow> folder_path = [] \<Longrightarrow>
   load_images_combined world fuel files folder_path =
   Some ([], Inr (''No images provided'', None))"
  by (simp add: load_images_combined_def)

lemma invalid_url_message:
  "startswith folder_path ''smb://'' \<Longrightarrow> parse_smb_url folder_path = Inl e \<Longrightarrow>
   e = ValueError ''SMB URL must contain at least server and share''"
  by (auto simp: parse_smb_url_def Let_def split: if_splits)

text \<open>
  The branch a load took, with how it ended: one of the three loading loops, followed by
  the end of the function or, on a share, by a \<open>close\<close> that raised; or one of the four
  early returns; or an exception before any file was tried.
\<close>

lemma load_branches:
  assumes "load_images_combined world fuel files folder_path = Some r"
  obtains
    (uploaded) "files \<noteq> []"
      "r = finish_load world
             (fst (load_paths (image_open world) ImageOpen ''Error loading file:'' files []))
             (snd (load_paths (image_open world) ImageOpen ''Error loading file:'' files []))"
  | (local_folder) "files = []" "folder_path \<noteq> []" "\<not> startswith folder_path ''smb://''"
      "isdir world folder_path"
      "r = finish_load world
             (OsWalk folder_path #
              fst (load_paths (image_open world) ImageOpen ''Error loading local file:''
                     (walk_paths (os_walk world folder_path)) []))
             (snd (load_paths (image_open world) ImageOpen ''Error loading local file:''
                     (walk_paths (os_walk world folder_path)) []))"
  | (share) server share rel_path steps where
      "files = []" "startswith folder_path ''smb://''"
      "parse_smb_url folder_path = Inr (server, share, rel_path)"
      "smb_connection world server = None" "smb_connect world server = Inr True"
      "smb_walk fuel world server share rel_path = Some steps"
      "smb_close world server = None"
      "r = finish_load world
             (Connect server # fst (load_smb_walk world server share steps []) @ [Close])
             (snd (load_paths (smb_retrieveFile world server share) (RetrieveFile share)
                     ''Error loading SMB file:'' (steps_paths steps) []))"
  | (close_raises) server share rel_path steps e where
      "files = []" "startswith folder_path ''smb://''"
      "parse_smb_url folder_path = Inr (server, share, rel_path)"
      "smb_connection world server = None" "smb_connect world server = Inr True"
      "smb_walk fuel world server share rel_path = Some steps"
      "smb_close world server = Some e"
      "r = (Connect server # fst (load_smb_walk world server share steps []) @ [Close], Inl e)"
  | (no_input) "files = []" "folder_path = []" "r = ([], Inr (''No images provided'', None))"
  | (invalid_folder) "files = []" "folder_path \<noteq> []" "\<not> startswith folder_path ''smb://''"
      "\<not> isdir world folder_path" "r = ([], Inr (''Invalid folder path provided.'', None))"
  | (invalid_url) e where "files = []" "startswith folder_path ''smb://''"
      "parse_smb_url folder_path = Inl e"
      "r = ([], Inr (''Invalid SMB URL: SMB URL must contain at least server and share'', None))"
  | (refused) server share rel_path where
      "files = []" "startswith folder_path ''smb://''"
      "parse_smb_url folder_path = Inr (server, share, rel_path)"
      "smb_connection world server = None" "smb_connect world server = Inr False"
      "r = ([Connect server], Inr (''Connection failed.'', None))"
  | (connect_raises) server share rel_path e where
      "files = []" "startswith folder_path ''smb://''"
      "parse_smb_url folder_path = Inr (server, share, rel_path)"
      "smb_connection world server = None" "smb_connect world server = Inl e"
      "r = ([Connect server], Inl e)"
  | (connection_raises) server share rel_path e where
      "files = []" "startswith folder_path ''smb://''"
      "parse_smb_url folder_path = Inr (server, share, rel_path)"
      "smb_connection world server = Some e" "r = ([], Inl e)"
proof (cases "files = []")
  case False
  have "r = finish_load world
             (fst (load_paths (image_open world) ImageOpen ''Error loading file:'' files []))
             (snd (load_paths (image_open world) ImageOpen ''Error loading file:'' files []))"
    using assms load_uploaded[OF False, of world fuel folder_path] by simp
  with False show ?thesis by (rule uploaded)
next
  case nofiles: True
  show ?thesis
  proof (cases "folder_path = []")
    case True
    have "r = ([], Inr (''No images provided'', None))"
      using assms load_no_input[OF nofiles True, of world fuel] by simp
    with nofiles True show ?thesis by (rule no_input)
  next
    case nonempty: False
    show ?thesis
    proof (cases "startswith folder_path ''smb://''")
      case notsmb: False
      show ?thesis
      proof (cases "isdir world folder_path")
        case True
        have "r = finish_load world
             (OsWalk folder_path #
              fst (load_paths (image_open world) ImageOpen ''Error loading local file:''
                     (walk_paths (os_walk world folder_path)) []))
             (snd (load_paths (image_open world) ImageOpen ''Error loading local file:''
                     (walk_paths (os_walk world folder_path)) []))"
          using assms load_local[OF nofiles nonempty notsmb True, of fuel] by simp
        with nofiles nonempty notsmb True show ?thesis by (rule local_folder)
      next
        case False
        have "r = ([], Inr (''Invalid folder path provided.'', None))"
          using assms load_invalid_folder[OF nofiles nonempty notsmb False, of fuel] by simp
        with nofiles nonempty notsmb False show ?thesis by (rule invalid_folder)
      qed
    next
      case smb: True
      show ?thesis
      proof (cases "parse_smb_url folder_path")
        case (Inl e)
        have "exn_str e = ''SMB URL must contain at least server and share''"
          using invalid_url_message[OF smb Inl] by simp
        then have "r = ([], Inr (''Invalid SMB URL: SMB URL must contain at least server and share'',
                                 None))"
          using assms load_invalid_url[OF nofiles smb Inl, of world fuel] by simp
        with nofiles smb Inl show ?thesis by (rule invalid_url)
      next
        case (Inr t)
        obtain server share rel_path where t: "t = (server, share, rel_path)" by (cases t)
        note p = Inr[unfolded t]
        show ?thesis
        proof (cases "smb_connection world server")
          case (Some e)
          have "r = ([], Inl e)"
            using assms load_connection_raises[OF nofiles smb p Some, of fuel] by simp
          with nofiles smb p Some show ?thesis by (rule connection_raises)
        next
          case built: None
          show ?thesis
          proof (cases "smb_connect world server")
            case (Inl e)
            have "r = ([Connect server], Inl e)"
              using assms load_connect_raises[OF nofiles smb p built Inl, of fuel] by simp
            with nofiles smb p built Inl show ?thesis by (rule connect_raises)
          next
            case (Inr accepted)
            show ?thesis
            proof (cases accepted)
              case False
              then have no: "smb_connect world server = Inr False" using Inr by simp
              have "r = ([Connect server], Inr (''Connection failed.'', None))"
                using assms load_no_connection[OF nofiles smb p built no, of fuel] by simp
              with nofiles smb p built no show ?thesis by (rule refused)
            next
              case True
              then have c: "smb_connect world server = Inr True" using Inr by simp
              show ?thesis
              proof (cases "smb_walk fuel world server share rel_path")
                case None
                then show ?thesis
                  using assms load_smb_more_fuel[OF nofiles smb p built c None] by simp
              next
                case walked: (Some steps)
                note l = load_smb[OF nofiles smb p built c walked]
                show ?thesis
                proof (cases "smb_close world server")
                  case closed: None
                  have "r = finish_load world
                     (Connect server # fst (load_smb_walk world server share steps []) @ [Close])
                     (snd (load_paths (smb_retrieveFile world server share) (RetrieveFile share)
                             ''Error loading SMB file:'' (steps_paths steps) []))"
                    using assms l closed by (simp add: load_smb_walk_snd)
                  with nofiles smb p built c walked closed show ?thesis by (rule share)
                next
                  case (Some e)
                  have "r = (Connect server # fst (load_smb_walk world server share steps []) @ [Close],
                    Inl e)"
                    using assms l Some by simp
                  with nofiles smb p built c walked Some show ?thesis by (rule close_raises)
                qed
              qed
            qed
          qed
        qed
      qed
    qed
  qed
qed

text \<open>A load that returns a state went through the end of the function with a dict.\<close>

lemma load_state:
  assumes "load_images_combined world fuel files folder_path = Some (trace, Inr (status, Some st))"
  shows "\<exists>tr imgs. is_dict imgs \<and> finish_load world tr imgs = (trace, Inr (status, Some st))"
  using assms
proof (cases rule: load_branches)
  case uploaded
  have "is_dict (snd (load_paths (image_open world) ImageOpen ''Error loading file:'' files []))"
    unfolding is_dict_def by (rule load_paths_distinct) simp
  then show ?thesis using uploaded(2) by metis
next
  case local_folder
  have "is_dict (snd (load_paths (image_open world) ImageOpen ''Error loading local file:''
                   (walk_paths (os_walk world folder_path)) []))"
    unfolding is_dict_def by (rule load_paths_distinct) simp
  then show ?thesis using local_folder(5) by metis
next
  case (share server share rel_path steps)
  have "is_dict (snd (load_paths (smb_retrieveFile world server share) (RetrieveFile share)
                     ''Error loading SMB file:'' (steps_paths steps) []))"
    unfolding is_dict_def by (rule load_paths_distinct) simp
  then show ?thesis using share(8) by metis
qed simp_all

section \<open>Runs of the program in the small world\<close>


lemma demo_smb_load:
  "load_images_combined demo_world 3 [] ''smb://nas/photos'' =
   Some ([Connect ''nas'', ListPath ''photos'' ''/'', RetrieveFile ''photos'' ''/a.jpg'',
          ListPath ''photos'' ''/sub'', RetrieveFile ''photos'' ''/sub/b.PNG'',
          RetrieveFile ''photos'' ''/sub/bad.jpeg'',
          Print ''Error loading SMB file: /sub/bad.jpeg cannot identify image file'',
          ListPath ''photos'' ''/locked'',
          Print ''Error listing directory /locked: access denied'', Close],
         Inr (''Images loaded successfully'',
              Some \<lparr>st_images = [(''/a.jpg'', 4), (''/sub/b.PNG'', 5)],
                    st_embeddings = [(''/a.jpg'', 40), (''/sub/b.PNG'', 50)]\<rparr>))"
  by code_simp


lemma demo_upload_load:
  "load_images_combined demo_world 0 [''up.png'', ''broken.png''] ''/pics'' =
   Some ([ImageOpen ''up.png'', ImageOpen ''broken.png'',
          Print ''Error loading file: broken.png cannot identify image file''],
         Inr (''Images loaded successfully'',
              Some \<lparr>st_images = [(''up.png'', 3)], st_embeddings = [(''up.png'', 30)]\<rparr>))"
  by code_simp


lemma demo_nothing_loaded:
  "load_images_combined demo_world 0 [''broken.png''] [] =
   Some ([ImageOpen ''broken.png'',
          Print ''Error loading file: broken.png cannot identify image file''],
         Inr (''No images loaded'', None))"
  by code_simp

lemma demo_no_connection:
  "load_images_combined demo_world 3 [] ''smb://other/photos'' =
   Some ([Connect ''other''], Inr (''Connection failed.'', None))"
  by code_simp

lemma demo_invalid_url:
  "load_images_combined demo_world 3 [] ''smb://nas'' =
   Some ([], Inr (''Invalid SMB URL: SMB URL must contain at least server and share'', None))"
  by code_simp

lemma demo_invalid_folder:
  "load_images_combined demo_world 0 [] ''/nowhere'' =
   Some ([], Inr (''Invalid folder path provided.'', None))"
  by code_simp

lemma demo_no_input:
  "load_images_combined demo_world 0 [] [] = Some ([], Inr (''No images provided'', None))"
  by code_simp

section \<open>Claims about the session state\<close>

text \<open>
  C3. In every state a load returns, the embeddings are the images with each image
  replaced by what the embedding model returned for it: one embedding per image, under
  the same key and in the same order, so the two dicts have the same keys. Such a state
  comes with the status of success and holds at least one image.
\<close>

theorem C3_embedding_keys:
  assumes "load_images_combined world fuel files folder_path =
             Some (trace, Inr (status, Some st))"
  shows "map (\<lambda>(filename, embedding). (filename, Inr embedding)) (st_embeddings st) =
           map (\<lambda>(filename, img). (filename, encode_image world img)) (st_images st) \<and>
         map fst (st_embeddings st) = map fst (st_images st) \<and>
         fst ` set (st_embeddings st) = fst ` set (st_images st) \<and>
         is_dict (st_images st) \<and> is_dict (st_embeddings st) \<and> st_images st \<noteq> [] \<and>
         status = ''Images loaded successfully''"
proof -
  from load_state[OF assms] obtain tr imgs where
    d: "is_dict imgs" and f: "finish_load world tr imgs = (trace, Inr (status, Some st))"
    by auto
  from finish_load_Some[OF f] have
    s: "status = ''Images loaded successfully''" "imgs \<noteq> []" "st_images st = imgs"
       "get_image_embeddings world imgs = Inr (st_embeddings st)"
    by simp_all
  have e: "map (\<lambda>(filename, embedding). (filename, Inr embedding)) (st_embeddings st) =
           map (\<lambda>(filename, img). (filename, encode_image world img)) (st_images st)"
    using get_image_embeddings_Inr[OF d s(4)] s(3) by simp
  have "map fst (map (\<lambda>(filename, embedding). (filename, Inr embedding :: exn + 'b))
                  (st_embeddings st)) =
        map fst (map (\<lambda>(filename, img). (filename, encode_image world img)) (st_images st))"
    using e by simp
  then have k: "map fst (st_embeddings st) = map fst (st_images st)"
    by (simp add: comp_def case_prod_unfold)
  have k': "fst ` set (st_embeddings st) = fst ` set (st_images st)"
    using k by (metis set_map)
  have "is_dict (st_embeddings st)" using d k s(3) by (simp add: is_dict_def)
  then show ?thesis using e k k' d s by simp
qed

theorem C3_embedding_keys_witness:
  "load_images_combined demo_world 3 [] ''smb://nas/photos'' =
   Some ([Connect ''nas'', ListPath ''photos'' ''/'', RetrieveFile ''photos'' ''/a.jpg'',
          ListPath ''photos'' ''/sub'', RetrieveFile ''photos'' ''/sub/b.PNG'',
          RetrieveFile ''photos'' ''/sub/bad.jpeg'',
          Print ''Error loading SMB file: /sub/bad.jpeg cannot identify image file'',
          ListPath ''photos'' ''/locked'',
          Print ''Error listing directory /locked: access denied'', Close],
         Inr (''Images loaded successfully'',
              Some \<lparr>st_images = [(''/a.jpg'', 4), (''/sub/b.PNG'', 5)],
                    st_embeddings = [(''/a.jpg'', 40), (''/sub/b.PNG'', 50)]\<rparr>)) \<and>
   map fst [(''/a.jpg'', 40 :: nat), (''/sub/b.PNG'', 50)] =
   map fst [(''/a.jpg'', 4 :: nat), (''/sub/b.PNG'', 5)] \<and>
   encode_image demo_world 4 = Inr 40 \<and> encode_image demo_world 5 = Inr 50"
  using C3_embedding_keys[OF demo_smb_load] demo_smb_load by simp

section \<open>Claims about the operations on no state\<close>

text \<open>
  C10. On the state \<open>None\<close>, search\_images returns the empty list and
  cluster\_images\_gui returns the text \<open>No images loaded.\<close>: neither raises, and the
  result depends on no embedding, clustering, prompt or library call.
\<close>

theorem C10_no_state:
  "search_images world prompt None = Inr [] \<and>
   cluster_images_gui kmeans_labels world None num_clusters = Inr ''No images loaded.''"
  by (simp add: search_images_def cluster_images_gui_def)

section \<open>Claims about files that fail to load\<close>

lemma load_paths_kept:
  "set (map fst (snd (load_paths opn att msg ps []))) = set (filter (\<lambda>p. \<not> isl (opn p)) ps)"
proof -
  have "{p \<in> set ps. \<exists>img. opn p = Inr img} = {p \<in> set ps. \<not> isl (opn p)}"
    by (auto simp: isl_def) (metis sum.exhaust)
  then show ?thesis using load_paths_keys[of opn att msg ps "[]"] by simp
qed









lemma demo_parse: "parse_smb_url ''smb://nas/photos'' = Inr (''nas'', ''photos'', ''/'')"
  by code_simp



section \<open>Claims about the status and the state\<close>

lemma load_paths_none:
  "snd (load_paths opn att msg ps []) = [] \<longleftrightarrow> list_all (\<lambda>p. isl (opn p)) ps"
proof -
  have "snd (load_paths opn att msg ps []) = [] \<longleftrightarrow>
        set (map fst (snd (load_paths opn att msg ps []))) = {}"
    by simp
  also have "\<dots> \<longleftrightarrow> set (filter (\<lambda>p. \<not> isl (opn p)) ps) = {}"
    unfolding load_paths_kept ..
  also have "\<dots> \<longleftrightarrow> list_all (\<lambda>p. isl (opn p)) ps"
    by (auto simp: list_all_iff filter_empty_conv)
  finally show ?thesis .
qed

text \<open>
  Whenever load\_images\_combined returns, the state is \<open>None\<close> exactly when the status
  is one of the five error messages, and a state exactly with the message of success.
  Each message stands for its case: no input; a folder path that is neither a share URL
  nor a directory; a share URL without server and share; a session that the server
  refused (\<open>connect\<close> returned \<open>False\<close>); and, for \<open>No images loaded\<close>, a load that ran
  and kept no image (for uploaded files: every one of them failed to open).
\<close>

lemma load_status:
  assumes "load_images_combined world fuel files folder_path = Some (trace, Inr (status, st))"
  shows "(st = None \<longleftrightarrow> status \<in> set error_statuses) \<and>
         (st \<noteq> None \<longleftrightarrow> status = ''Images loaded successfully'') \<and>
         (status = ''No images provided'' \<longleftrightarrow> files = [] \<and> folder_path = []) \<and>
         (status = ''Invalid folder path provided.'' \<longleftrightarrow>
            files = [] \<and> folder_path \<noteq> [] \<and> \<not> startswith folder_path ''smb://'' \<and>
            \<not> isdir world folder_path) \<and>
         (status = ''Invalid SMB URL: SMB URL must contain at least server and share'' \<longleftrightarrow>
            files = [] \<and> startswith folder_path ''smb://'' \<and>
            (\<exists>e. parse_smb_url folder_path = Inl e)) \<and>
         (status = ''Connection failed.'' \<longleftrightarrow>
            files = [] \<and> startswith folder_path ''smb://'' \<and>
            (\<exists>server share rel_path. parse_smb_url folder_path = Inr (server, share, rel_path) \<and>
               smb_connect world server = Inr False)) \<and>
         (files \<noteq> [] \<longrightarrow>
            (status = ''No images loaded'' \<longleftrightarrow> list_all (\<lambda>p. isl (image_open world p)) files)) \<and>
         (files = [] \<and> folder_path \<noteq> [] \<and> \<not> startswith folder_path ''smb://'' \<and>
          isdir world folder_path \<longrightarrow>
            (status = ''No images loaded'' \<longleftrightarrow>
             list_all (\<lambda>p. isl (image_open world p)) (walk_paths (os_walk world folder_path))))"
  using assms
proof (cases rule: load_branches)
  case uploaded
  from uploaded(2) have "snd (finish_load world
             (fst (load_paths (image_open world) ImageOpen ''Error loading file:'' files []))
             (snd (load_paths (image_open world) ImageOpen ''Error loading file:'' files []))) =
           Inr (status, st)"
    by (metis snd_conv)
  from finish_load_status[OF this] uploaded(1) show ?thesis
    by (simp add: error_statuses_def load_paths_none)
next
  case local_folder
  from local_folder(5) have "snd (finish_load world
             (OsWalk folder_path #
              fst (load_paths (image_open world) ImageOpen ''Error loading local file:''
                     (walk_paths (os_walk world folder_path)) []))
             (snd (load_paths (image_open world) ImageOpen ''Error loading local file:''
                     (walk_paths (os_walk world folder_path)) []))) =
           Inr (status, st)"
    by (metis snd_conv)
  from finish_load_status[OF this] local_folder(1-4) show ?thesis
    by (simp add: error_statuses_def load_paths_none)
next
  case (share server share rel_path steps)
  from share(8) have "snd (finish_load world
             (Connect server # fst (load_smb_walk world server share steps []) @ [Close])
             (snd (load_paths (smb_retrieveFile world server share) (RetrieveFile share)
                     ''Error loading SMB file:'' (steps_paths steps) []))) =
           Inr (status, st)"
    by (metis snd_conv)
  from finish_load_status[OF this] share(1-5) show ?thesis
    by (simp add: error_statuses_def startswith_nonempty)
next
  case (close_raises server share rel_path steps e)
  then show ?thesis by simp
next
  case no_input
  then show ?thesis by (simp add: error_statuses_def startswith_def)
next
  case invalid_folder
  then show ?thesis by (simp add: error_statuses_def)
next
  case (invalid_url e)
  then show ?thesis by (simp add: error_statuses_def startswith_nonempty)
next
  case (refused server share rel_path)
  then show ?thesis by (simp add: error_statuses_def startswith_nonempty)
next
  case (connect_raises server share rel_path e)
  then show ?thesis by simp
next
  case (connection_raises server share rel_path e)
  then show ?thesis by simp
qed

text \<open>
  C6, at a share URL whose server cannot be reached. \<open>connect\<close> raises (here: a
  time-out), no \<open>try\<close> is around it, and the exception leaves load\_images\_combined:
  there is no status message and no state, where the claim has a status message and the
  state \<open>None\<close>. A server that refuses the session (\<open>connect\<close> returns \<open>False\<close>) does
  give the message \<open>Connection failed.\<close> and the state \<open>None\<close>.
\<close>

theorem C6_connect_raises:
  "startswith ''smb://down/photos'' ''smb://'' \<and>
   parse_smb_url ''smb://down/photos'' = Inr (''down'', ''photos'', ''/'') \<and>
   smb_connect demo_world ''down'' = Inl (Exn ''timed out'') \<and>
   load_images_combined demo_world 3 [] ''smb://down/photos'' =
     Some ([Connect ''down''], Inl (Exn ''timed out'')) \<and>
   smb_connect demo_world ''other'' = Inr False \<and>
   load_images_combined demo_world 3 [] ''smb://other/photos'' =
     Some ([Connect ''other''], Inr (''Connection failed.'', None))"
  by code_simp

section \<open>Claims about the remote connection\<close>

lemma load_smb_walk_no_session:
  "list_all (\<lambda>ev. \<not> session_event ev) (fst (load_smb_walk world server share steps imgs))"
  unfolding list_all_iff
proof
  fix ev assume "ev \<in> set (fst (load_smb_walk world server share steps imgs))"
  from load_smb_walk_events[OF this] show "\<not> session_event ev" by auto
qed

lemma no_session_filter:
  "list_all (\<lambda>ev. \<not> session_event ev) body \<Longrightarrow>
   filter is_connect body = [] \<and> filter (\<lambda>ev. ev = Close) body = []"
proof (induction body)
  case Nil
  then show ?case by simp
next
  case (Cons ev body)
  then show ?case by (cases ev) auto
qed

text \<open>
  Once the client object is built, however the load ends (it returns, or \<open>connect\<close>,
  \<open>close\<close> or the embedding model raises): one \<open>Connect\<close>, first, and one \<open>Close\<close>,
  last, exactly when \<open>connect\<close> returned \<open>True\<close>.
\<close>

lemma connection_discipline:
  assumes "files = []" and "startswith folder_path ''smb://''"
    and "parse_smb_url folder_path = Inr (server, share, rel_path)"
    and "smb_connection world server = None"
    and "load_images_combined world fuel files folder_path = Some r"
  shows "length (filter is_connect (fst r)) = 1 \<and> hd (fst r) = Connect server \<and>
         length (filter (\<lambda>ev. ev = Close) (fst r)) =
           (if smb_connect world server = Inr True then 1 else 0) \<and>
         (smb_connect world server = Inr True \<longrightarrow>
            (\<exists>body. fst r = Connect server # body @ [Close] \<and>
                    list_all (\<lambda>ev. \<not> session_event ev) body)) \<and>
         (smb_connect world server = Inr False \<longrightarrow>
            r = ([Connect server], Inr (''Connection failed.'', None))) \<and>
         (\<forall>e. smb_connect world server = Inl e \<longrightarrow> r = ([Connect server], Inl e))"
proof (cases "smb_connect world server")
  case (Inl e)
  have "r = ([Connect server], Inl e)"
    using assms(5) load_connect_raises[OF assms(1,2,3,4) Inl, of fuel] by simp
  then show ?thesis using Inl by simp
next
  case (Inr accepted)
  show ?thesis
  proof (cases accepted)
    case False
    then have no: "smb_connect world server = Inr False" using Inr by simp
    have "r = ([Connect server], Inr (''Connection failed.'', None))"
      using assms(5) load_no_connection[OF assms(1,2,3,4) no, of fuel] by simp
    then show ?thesis using no by simp
  next
    case True
    then have c: "smb_connect world server = Inr True" using Inr by simp
    show ?thesis
    proof (cases "smb_walk fuel world server share rel_path")
      case None
      then show ?thesis using assms(5) load_smb_more_fuel[OF assms(1,2,3,4) c None] by simp
    next
      case (Some steps)
      let ?body = "fst (load_smb_walk world server share steps [])"
      have r: "fst r = Connect server # ?body @ [Close]"
        using assms(5) load_smb[OF assms(1,2,3,4) c Some]
        by (auto simp: finish_load_fst split: option.splits)
      have n: "list_all (\<lambda>ev. \<not> session_event ev) ?body" by (rule load_smb_walk_no_session)
      from no_session_filter[OF n] have f: "filter is_connect ?body = []"
        "filter (\<lambda>ev. ev = Close) ?body = []" by simp_all
      have "length (filter is_connect (fst r)) = 1" unfolding r using f by simp
      moreover have "length (filter (\<lambda>ev. ev = Close) (fst r)) = 1" unfolding r using f by simp
      moreover have "hd (fst r) = Connect server" unfolding r by simp
      ultimately show ?thesis using c r n by auto
    qed
  qed
qed

lemma returned_built:
  assumes "files = []" and "startswith folder_path ''smb://''"
    and "parse_smb_url folder_path = Inr (server, share, rel_path)"
    and "load_images_combined world fuel files folder_path = Some r"
    and "snd r = Inr returned"
  shows "smb_connection world server = None \<and> (\<exists>accepted. smb_connect world server = Inr accepted)"
proof (cases "smb_connection world server")
  case (Some e)
  then show ?thesis
    using assms(4,5) load_connection_raises[OF assms(1,2,3) Some, of fuel] by auto
next
  case None
  show ?thesis
  proof (cases "smb_connect world server")
    case (Inl e)
    then show ?thesis
      using assms(4,5) load_connect_raises[OF assms(1,2,3) None Inl, of fuel] by auto
  next
    case (Inr accepted)
    then show ?thesis using None by simp
  qed
qed

text \<open>
  C7. Let the folder path be a share URL that names a server and a share, with no
  uploaded files, and let the load return. Its trace holds exactly one \<open>Connect\<close>, at
  its start, to that server. When \<open>connect\<close> succeeds, the trace is that \<open>Connect\<close>,
  then listings, retrievals and printing only, then one \<open>Close\<close> at its end: the
  connection is closed exactly once, after the last remote call of the load and before it
  returns. When \<open>connect\<close> fails, nothing follows the \<open>Connect\<close> and nothing is closed.
  A load takes no connection and returns none.
\<close>

theorem C7_one_connection:
  assumes "files = []" and "startswith folder_path ''smb://''"
    and "parse_smb_url folder_path = Inr (server, share, rel_path)"
    and "load_images_combined world fuel files folder_path = Some r"
    and "snd r = Inr returned"
  shows "length (filter is_connect (fst r)) = 1 \<and> hd (fst r) = Connect server \<and>
         length (filter (\<lambda>ev. ev = Close) (fst r)) =
           (if smb_connect world server = Inr True then 1 else 0) \<and>
         (smb_connect world server = Inr True \<longrightarrow>
            (\<exists>body. fst r = Connect server # body @ [Close] \<and>
                    list_all (\<lambda>ev. \<not> session_event ev) body)) \<and>
         (smb_connect world server \<noteq> Inr True \<longrightarrow>
            r = ([Connect server], Inr (''Connection failed.'', None)))"
proof -
  from returned_built[OF assms] obtain accepted where
    b: "smb_connection world server = None" and c: "smb_connect world server = Inr accepted"
    by blast
  note d = connection_discipline[OF assms(1,2,3) b assms(4)]
  show ?thesis
  proof (cases accepted)
    case True
    then show ?thesis using d c by simp
  next
    case False
    then have "smb_connect world server = Inr False" using c by simp
    then show ?thesis using d by simp
  qed
qed

theorem C7_one_connection_witness:
  "startswith ''smb://nas/photos'' ''smb://'' \<and>
   parse_smb_url ''smb://nas/photos'' = Inr (''nas'', ''photos'', ''/'') \<and>
   smb_connect demo_world ''nas'' = Inr True \<and>
   (\<exists>r. load_images_combined demo_world 3 [] ''smb://nas/photos'' = Some r \<and>
        length (filter is_connect (fst r)) = 1 \<and>
        length (filter (\<lambda>ev. ev = Close) (fst r)) = 1 \<and>
        hd (fst r) = Connect ''nas'' \<and> last (fst r) = Close) \<and>
   parse_smb_url ''smb://other/photos'' = Inr (''other'', ''photos'', ''/'') \<and>
   smb_connect demo_world ''other'' = Inr False \<and>
   (\<exists>r. load_images_combined demo_world 3 [] ''smb://other/photos'' = Some r \<and>
        length (filter is_connect (fst r)) = 1 \<and>
        length (filter (\<lambda>ev. ev = Close) (fst r)) = 0)"
proof -
  have s: "startswith ''smb://nas/photos'' ''smb://''"
    "startswith ''smb://other/photos'' ''smb://''" by code_simp+
  have p: "parse_smb_url ''smb://other/photos'' = Inr (''other'', ''photos'', ''/'')"
    by code_simp
  have c: "smb_connect demo_world ''nas'' = Inr True" "smb_connect demo_world ''other'' = Inr False"
    by code_simp+
  from C7_one_connection[OF refl s(1) demo_parse demo_smb_load] c(1)
  have 1: "\<exists>r. load_images_combined demo_world 3 [] ''smb://nas/photos'' = Some r \<and>
        length (filter is_connect (fst r)) = 1 \<and>
        length (filter (\<lambda>ev. ev = Close) (fst r)) = 1 \<and>
        hd (fst r) = Connect ''nas'' \<and> last (fst r) = Close"
    using demo_smb_load by simp
  from C7_one_connection[OF refl s(2) p demo_no_connection] c(2)
  have 2: "\<exists>r. load_images_combined demo_world 3 [] ''smb://other/photos'' = Some r \<and>
        length (filter is_connect (fst r)) = 1 \<and>
        length (filter (\<lambda>ev. ev = Close) (fst r)) = 0"
    using demo_no_connection by simp
  from s(1) demo_parse c p 1 2 show ?thesis by blast
qed

section \<open>Claims about uploaded files and the folder path\<close>

lemma load_paths_upload_events:
  "list_all (upload_event files)
     (fst (load_paths opn ImageOpen msg files imgs))"
  unfolding list_all_iff
proof
  fix ev assume "ev \<in> set (fst (load_paths opn ImageOpen msg files imgs))"
  from load_paths_events[OF this] show "upload_event files ev" by auto
qed

text \<open>
  C9. With a non-empty list of uploaded files, the outcome of load\_images\_combined is
  the same for every folder path (and every fuel): the folder path is not looked at.
  The load ends; its events are attempts to open uploaded files and printing only (no
  local walk, no connection, no remote call), and every key of the images is an uploaded
  file.
\<close>

theorem C9_uploads_first:
  assumes "files \<noteq> []"
  shows "load_images_combined world fuel files folder_path =
           load_images_combined world fuel' files folder_path' \<and>
         (\<exists>r. load_images_combined world fuel files folder_path = Some r \<and>
              list_all (upload_event files) (fst r) \<and>
              set (map fst (loaded_images r)) \<subseteq> set files)"
proof -
  let ?lp = "load_paths (image_open world) ImageOpen ''Error loading file:'' files []"
  let ?r = "finish_load world (fst ?lp) (snd ?lp)"
  have l: "load_images_combined world fuel files folder_path = Some ?r"
    using assms by (rule load_uploaded)
  have l': "load_images_combined world fuel' files folder_path' = Some ?r"
    using assms by (rule load_uploaded)
  have e: "list_all (upload_event files) (fst ?r)"
    unfolding finish_load_fst by (rule load_paths_upload_events)
  have "set (map fst (snd ?lp)) \<subseteq> set files"
    unfolding load_paths_kept by auto
  then have k: "set (map fst (loaded_images ?r)) \<subseteq> set files"
    using finish_load_keys[of world "fst ?lp" "snd ?lp"] by blast
  from l l' e k show ?thesis by simp
qed

theorem C9_uploads_first_witness:
  "[''up.png'', ''broken.png''] \<noteq> [] \<and> ''/pics'' \<noteq> [] \<and>
   load_images_combined demo_world 0 [''up.png'', ''broken.png''] ''/pics'' =
     load_images_combined demo_world 3 [''up.png'', ''broken.png''] ''smb://nas/photos'' \<and>
   load_images_combined demo_world 0 [''up.png'', ''broken.png''] ''/pics'' =
     Some ([ImageOpen ''up.png'', ImageOpen ''broken.png'',
            Print ''Error loading file: broken.png cannot identify image file''],
           Inr (''Images loaded successfully'',
                Some \<lparr>st_images = [(''up.png'', 3)], st_embeddings = [(''up.png'', 30)]\<rparr>)) \<and>
   list_all (upload_event [''up.png'', ''broken.png''])
     [ImageOpen ''up.png'', ImageOpen ''broken.png'',
      Print ''Error loading file: broken.png cannot identify image file'']"
proof -
  have u: "[''up.png'', ''broken.png''] \<noteq> []" by simp
  from C9_uploads_first[OF u, of demo_world 0 "''/pics''" 3 "''smb://nas/photos''"]
  show ?thesis using demo_upload_load by simp
qed

section \<open>Claims about the extension filter\<close>



















end
